theory Spec2Isabelle
  imports Complex_Main "HOL-Library.Word"
begin

section \<open>JavaScript values\<close>

text \<open>
  A JavaScript string is a sequence of UTF-16 code units. The byte-order mark U+FEFF and
  the no-break spaces that \<^verbatim>\<open>trim\<close> removes lie outside Latin-1, so the model keeps
  the code units themselves; \<open>js\<close> embeds an ASCII literal.
\<close>

type_synonym jstring = "16 word list"

definition js :: "string \<Rightarrow> jstring" where
  "js s = map of_char s"

text \<open>
  A JavaScript number is an IEEE double: a finite value (always a rational), NaN, or one of
  the two infinities. Comparisons, \<^verbatim>\<open>Math.floor\<close> and \<^verbatim>\<open>Math.max\<close> are exact on
  doubles, so they are modelled on the rational value.
\<close>

datatype jsnum = Fin rat | NaN | PosInf | NegInf

text \<open>\<^verbatim>\<open>Number.isFinite\<close>.\<close>

fun isFinite :: "jsnum \<Rightarrow> bool" where
  "isFinite (Fin q) = True"
| "isFinite _ = False"

text \<open>\<^verbatim>\<open>Number.isInteger\<close>.\<close>

fun isInteger :: "jsnum \<Rightarrow> bool" where
  "isInteger (Fin q) = (of_int \<lfloor>q\<rfloor> = q)"
| "isInteger _ = False"

text \<open>
  White space and line terminators of ECMAScript: what \<^verbatim>\<open>String.prototype.trim\<close>
  strips and what the regular-expression class \<^verbatim>\<open>\s\<close> matches.
\<close>

definition is_ws :: "16 word \<Rightarrow> bool" where
  "is_ws c \<longleftrightarrow>
     c = 0x09 \<or> c = 0x0A \<or> c = 0x0B \<or> c = 0x0C \<or> c = 0x0D \<or> c = 0x20 \<or> c = 0xA0 \<or>
     c = 0x1680 \<or> (0x2000 \<le> c \<and> c \<le> 0x200A) \<or> c = 0x2028 \<or> c = 0x2029 \<or>
     c = 0x202F \<or> c = 0x205F \<or> c = 0x3000 \<or> c = 0xFEFF"

definition trim :: "jstring \<Rightarrow> jstring" where
  "trim s = rev (dropWhile is_ws (rev (dropWhile is_ws s)))"

text \<open>\<^verbatim>\<open>\d\<close>: the ten ASCII digits.\<close>

definition is_digit :: "16 word \<Rightarrow> bool" where
  "is_digit c \<longleftrightarrow> 0x30 \<le> c \<and> c \<le> 0x39"

text \<open>\<^verbatim>\<open>s.replace(/^\uFEFF/, "")\<close>: one leading byte-order mark.\<close>

definition strip_bom :: "jstring \<Rightarrow> jstring" where
  "strip_bom s = (case s of [] \<Rightarrow> [] | c # r \<Rightarrow> if c = 0xFEFF then r else s)"

text \<open>\<^verbatim>\<open>s.replace(/\x00/g, "")\<close>: every NUL.\<close>

definition strip_nul :: "jstring \<Rightarrow> jstring" where
  "strip_nul s = filter (\<lambda>c. c \<noteq> 0) s"

text \<open>
  \<^verbatim>\<open>s.replace(/^"|"$/g, "")\<close>: the global search first removes a quote at index 0,
  then a quote at the last index if that one was not consumed already.
\<close>

definition strip_quotes :: "jstring \<Rightarrow> jstring" where
  "strip_quotes s =
     (let r = (case s of [] \<Rightarrow> [] | c # t \<Rightarrow> if c = 0x22 then t else s)
      in if r \<noteq> [] \<and> last r = 0x22 then butlast r else r)"

text \<open>\<^verbatim>\<open>Array.prototype.join\<close> on an array of strings.\<close>

fun join :: "jstring \<Rightarrow> jstring list \<Rightarrow> jstring" where
  "join sep [] = []"
| "join sep [x] = x"
| "join sep (x # y # xs) = x @ sep @ join sep (y # xs)"

text \<open>A thrown \<^verbatim>\<open>Error\<close> with its message.\<close>

datatype error = Error jstring

section \<open>The client: file name, headers, encoding\<close>

text \<open>
  \<^verbatim>\<open>name.trim().match(/^(\d{2})-(\d{2})\.csv$/i)\<close>. Without the \<^verbatim>\<open>u\<close> flag the
  case-insensitive comparison never maps a code unit above 127 to an ASCII one, so
  \<^verbatim>\<open>csv\<close> matches the ASCII letters in either case and nothing else.
\<close>

definition parseCourseFromFilename :: "jstring \<Rightarrow> (jstring \<times> jstring) option" where
  "parseCourseFromFilename name =
     (case trim name of
        [a, b, h, c, d, p, e, f, g] \<Rightarrow>
          if is_digit a \<and> is_digit b \<and> h = 0x2D \<and> is_digit c \<and> is_digit d \<and> p = 0x2E \<and>
             (e = 0x63 \<or> e = 0x43) \<and> (f = 0x73 \<or> f = 0x53) \<and> (g = 0x76 \<or> g = 0x56)
          then Some ([a, b], [c, d]) else None
      | _ \<Rightarrow> None)"

definition normalizeHeaderName :: "jstring \<Rightarrow> jstring" where
  "normalizeHeaderName s = trim (strip_nul (strip_bom s))"

definition header_error :: "jstring list \<Rightarrow> jstring list \<Rightarrow> error" where
  "header_error expn got =
     Error (js ''Header CSV non valido.'' @ [0x0A] @
            js ''Atteso: '' @ join (js '';'') expn @ [0x0A] @
            js ''Trovato: '' @ join (js '';'') got)"

definition requireExactHeaders :: "jstring list \<Rightarrow> jstring list \<Rightarrow> error + unit" where
  "requireExactHeaders headers expected =
     (let got = map normalizeHeaderName headers;
          expn = map normalizeHeaderName expected;
          sameLength = (length got = length expn);
          sameOrder = (sameLength \<and> list_all (\<lambda>i. got ! i = expn ! i) [0..<length got])
      in if \<not> sameOrder then Inl (header_error expn got) else Inr ())"

definition EXPECTED_HEADERS :: "jstring list" where
  "EXPECTED_HEADERS = [js ''Codice'', js ''Denominazione'', js ''CFU'']"

datatype encoding = Utf16le | Utf16be | Utf8

text \<open>
  \<^verbatim>\<open>for (let i = 1; i < sampleLen; i += 2) if (bytes[i] === 0) zeroOdd++;\<close>
  The index stays below \<open>sampleLen \<le> length bytes\<close>, so every read is in range.
\<close>

function zeroOdd_loop :: "8 word list \<Rightarrow> nat \<Rightarrow> nat \<Rightarrow> nat \<Rightarrow> nat" where
  "zeroOdd_loop bytes sampleLen i zeroOdd =
     (if i < sampleLen
      then zeroOdd_loop bytes sampleLen (i + 2) (if bytes ! i = 0 then zeroOdd + 1 else zeroOdd)
      else zeroOdd)"
  by pat_completeness auto
termination
  by (relation "measure (\<lambda>(bytes, sampleLen, i, zeroOdd). sampleLen - i)") auto

text \<open>
  The decoder itself (\<^verbatim>\<open>TextDecoder\<close>) is the browser's; it is the parameter
  \<open>decode\<close>. The threshold \<^verbatim>\<open>0.2\<close> is the double nearest to one fifth; a ratio with
  a denominator of at most 4000 that is not above one fifth is not above that double either,
  and one above one fifth exceeds it by at least 1/20000, so the comparison is the exact one.
\<close>

definition readFileTextUtf8OrUtf16 :: "(encoding \<Rightarrow> 8 word list \<Rightarrow> jstring) \<Rightarrow> 8 word list \<Rightarrow> jstring" where
  "readFileTextUtf8OrUtf16 decode bytes =
     (let isUtf16LeBom = (length bytes \<ge> 2 \<and> bytes ! 0 = 0xFF \<and> bytes ! 1 = 0xFE);
          isUtf16BeBom = (length bytes \<ge> 2 \<and> bytes ! 0 = 0xFE \<and> bytes ! 1 = 0xFF);
          isUtf8Bom = (length bytes \<ge> 3 \<and> bytes ! 0 = 0xEF \<and> bytes ! 1 = 0xBB \<and> bytes ! 2 = 0xBF)
      in if isUtf16LeBom then decode Utf16le bytes
         else if isUtf16BeBom then decode Utf16be bytes
         else if isUtf8Bom then decode Utf8 bytes
         else
           let sampleLen = min (length bytes) 4000;
               zeroOdd = zeroOdd_loop bytes sampleLen 1 0;
               ratio = (of_nat zeroOdd :: rat) / max 1 (of_nat sampleLen / 2);
               enc = (if ratio > 1 / 5 then Utf16le else Utf8)
           in decode enc bytes)"

section \<open>The client: grades and the weighted average\<close>

text \<open>
  The types \<^verbatim>\<open>Exam\<close>, \<^verbatim>\<open>PlanRow\<close> and \<^verbatim>\<open>PlanDoc\<close>; their fields are prefixed
  with \<open>e_\<close>, \<open>r_\<close> and \<open>d_\<close>, which leaves the plain names to the local variables.
  The credit weight is an integer: every exam the client builds takes it from
  \<^verbatim>\<open>parseCfu\<close>, from a literal or from a stored plan row.
\<close>

record Exam =
  e_id :: jstring
  e_name :: jstring
  e_cfu :: int
  e_grade :: jstring

record PlanRow =
  r_codice :: jstring
  r_denominazione :: jstring
  r_cfu :: int

record PlanDoc =
  d_code :: jstring
  d_rows :: "PlanRow list"
  d_updated_at :: "jstring option"


definition parseCfu :: "jsnum \<Rightarrow> int" where
  "parseCfu n = (case n of Fin q \<Rightarrow> max 0 \<lfloor>q\<rfloor> | _ \<Rightarrow> 0)"










text \<open>
  An instance of the conversion for evaluating concrete inputs: the value of
  \<^verbatim>\<open>Number\<close> on an optionally signed decimal literal without exponent (the empty
  string is 0), and NaN on every other string.
\<close>

definition digits_value :: "jstring \<Rightarrow> nat" where
  "digits_value ds = foldl (\<lambda>a c. 10 * a + (unat c - 48)) 0 ds"

definition unsigned_decimal :: "jstring \<Rightarrow> rat option" where
  "unsigned_decimal t =
     (let ip = takeWhile is_digit t; rest = dropWhile is_digit t
      in case rest of
           [] \<Rightarrow> if ip = [] then None else Some (of_nat (digits_value ip))
         | c # fp \<Rightarrow>
             if c = 0x2E \<and> list_all is_digit fp \<and> (ip \<noteq> [] \<or> fp \<noteq> [])
             then Some (of_nat (digits_value (ip @ fp)) / 10 ^ length fp)
             else None)"

definition Number_decimal :: "jstring \<Rightarrow> jsnum" where
  "Number_decimal s =
     (let t = trim s
      in case t of
           [] \<Rightarrow> Fin 0
         | c # r \<Rightarrow>
             if c = 0x2D then (case unsigned_decimal r of Some q \<Rightarrow> Fin (- q) | None \<Rightarrow> NaN)
             else if c = 0x2B then (case unsigned_decimal r of Some q \<Rightarrow> Fin q | None \<Rightarrow> NaN)
             else (case unsigned_decimal t of Some q \<Rightarrow> Fin q | None \<Rightarrow> NaN))"

section \<open>The client: merging a fetched plan\<close>

text \<open>\<^verbatim>\<open>s.replace(/\s+/g, " ")\<close>: every maximal run of white space becomes one space.\<close>

function collapse_ws :: "jstring \<Rightarrow> jstring" where
  "collapse_ws [] = []"
| "collapse_ws (c # cs) =
     (if is_ws c then 0x20 # collapse_ws (dropWhile is_ws cs) else c # collapse_ws cs)"
  by pat_completeness auto
termination
  by (relation "measure length") (auto simp: length_dropWhile_le less_Suc_eq_le)

text \<open>
  The string of an integer in a template literal: decimal digits with a minus sign. (The
  language switches to exponent notation from \<open>10\<^sup>2\<^sup>1\<close> on; credit weights are far
  below.)
\<close>

function digits_of :: "nat \<Rightarrow> jstring" where
  "digits_of n = (if n < 10 then [of_nat (48 + n)] else digits_of (n div 10) @ [of_nat (48 + n mod 10)])"
  by pat_completeness auto
termination
  by (relation "measure id") auto

declare digits_of.simps [simp del]

definition String_of_int :: "int \<Rightarrow> jstring" where
  "String_of_int i = (if i < 0 then 0x2D # digits_of (nat (- i)) else digits_of (nat i))"

text \<open>
  \<^verbatim>\<open>String.prototype.toLowerCase\<close> is the language's; it is the parameter
  \<open>toLowerCase\<close>.
\<close>

definition normKey :: "(jstring \<Rightarrow> jstring) \<Rightarrow> jstring \<Rightarrow> int \<Rightarrow> jstring" where
  "normKey toLowerCase name cfu =
     collapse_ws (toLowerCase (trim name)) @ [0x7C] @ String_of_int cfu"

text \<open>An instance for evaluating concrete inputs: the lower-casing of the ASCII letters.\<close>

definition toLowerCase_ascii :: "jstring \<Rightarrow> jstring" where
  "toLowerCase_ascii s = map (\<lambda>c. if 0x41 \<le> c \<and> c \<le> 0x5A then c + 0x20 else c) s"

text \<open>
  The state of the component that the modelled handlers read or write. \<open>made\<close> counts
  the calls of \<^verbatim>\<open>makeId\<close>, whose result comes from the clock and the random
  generator: the parameter \<open>makeId\<close> gives the identifier of the n-th call.
  \<open>sent\<close> records the requests issued through \<^verbatim>\<open>apiGetPlan\<close> and
  \<^verbatim>\<open>apiSavePlan\<close>, oldest first.
\<close>

datatype request = GetPlan jstring | SavePlan jstring "PlanRow list"

fun request_code :: "request \<Rightarrow> jstring" where
  "request_code (GetPlan c) = c"
| "request_code (SavePlan c rs) = c"

record State =
  exams :: "Exam list"
  status :: jstring
  courseXX :: jstring
  courseYY :: jstring
  lookupOpen :: bool
  lookupLoading :: bool
  lookupMessage :: jstring
  foundPlan :: "PlanDoc option"
  selectedIdx :: "nat set"
  made :: nat
  sent :: "request list"

definition closeLookup :: "State \<Rightarrow> State" where
  "closeLookup s = s\<lparr>lookupOpen := False, lookupLoading := False\<rparr>"

text \<open>The loop over the selected rows, with the set of keys seen and the exams to add.\<close>

fun addSelected_loop ::
  "(jstring \<Rightarrow> jstring) \<Rightarrow> (nat \<Rightarrow> jstring) \<Rightarrow> PlanRow list \<Rightarrow> jstring set \<Rightarrow> Exam list \<Rightarrow> nat \<Rightarrow>
   Exam list \<times> nat" where
  "addSelected_loop toLowerCase makeId [] existing toAdd n = (toAdd, n)"
| "addSelected_loop toLowerCase makeId (r # rs) existing toAdd n =
     (let key = normKey toLowerCase (r_denominazione r) (r_cfu r)
      in if key \<in> existing then addSelected_loop toLowerCase makeId rs existing toAdd n
         else addSelected_loop toLowerCase makeId rs (insert key existing)
                (toAdd @ [\<lparr>e_id = makeId n, e_name = r_denominazione r, e_cfu = r_cfu r, e_grade = []\<rparr>])
                (n + 1))"

definition addSelectedFromFound :: "(jstring \<Rightarrow> jstring) \<Rightarrow> (nat \<Rightarrow> jstring) \<Rightarrow> State \<Rightarrow> State" where
  "addSelectedFromFound toLowerCase makeId s =
     (case foundPlan s of
        None \<Rightarrow> s
      | Some plan \<Rightarrow>
          let selected = nths (d_rows plan) (selectedIdx s)
          in if length selected = 0 then s\<lparr>lookupMessage := js ''Nessun esame selezionato.''\<rparr>
             else
               let s1 = closeLookup s;
                   prev = exams s1;
                   existing = set (map (\<lambda>e. normKey toLowerCase (e_name e) (e_cfu e)) prev);
                   (toAdd, n) = addSelected_loop toLowerCase makeId selected existing [] (made s1);
                   merged = prev @ toAdd;
                   skipped = length selected - length toAdd
               in s1\<lparr>exams := merged,
                      made := n,
                      status :=
                        js ''Aggiunti '' @ String_of_int (int (length toAdd)) @
                        js '' esami dal piano '' @ d_code plan @
                        (if skipped > 0
                         then js '' (saltati '' @ String_of_int (int skipped) @ js '' duplicati).''
                         else js ''.'')\<rparr>)"

section \<open>The client: importing a plan from a CSV file\<close>

text \<open>\<^verbatim>\<open>text.split(/\r?\n/)\<close>, with the line being collected.\<close>

fun split_lines :: "jstring \<Rightarrow> jstring \<Rightarrow> jstring list" where
  "split_lines cur [] = [cur]"
| "split_lines cur [c] = (if c = 0x0A then [cur, []] else [cur @ [c]])"
| "split_lines cur (c # d # cs) =
     (if c = 0x0A then cur # split_lines [] (d # cs)
      else if c = 0x0D \<and> d = 0x0A then cur # split_lines [] cs
      else split_lines (cur @ [c]) (d # cs))"

text \<open>\<^verbatim>\<open>line.split(sep)\<close> for a separator of one code unit.\<close>

fun split_sep :: "16 word \<Rightarrow> jstring \<Rightarrow> jstring \<Rightarrow> jstring list" where
  "split_sep sep cur [] = [cur]"
| "split_sep sep cur (c # cs) =
     (if c = sep then cur # split_sep sep [] cs else split_sep sep (cur @ [c]) cs)"

text \<open>
  A \<^verbatim>\<open>Record<string, string>\<close> is a finite map; \<^verbatim>\<open>headers.forEach\<close> assigns
  the fields in order, so a later header of the same name overwrites an earlier one, and
  \<^verbatim>\<open>cols[i] ?? ""\<close> pads the missing columns.
\<close>

definition row_object :: "jstring list \<Rightarrow> jstring list \<Rightarrow> (jstring \<rightharpoonup> jstring)" where
  "row_object headers cols =
     foldl (\<lambda>obj (h, i). obj(h \<mapsto> strip_quotes (trim (if i < length cols then cols ! i else []))))
       Map.empty (zip headers [0..<length headers])"

definition parseCsvAuto :: "jstring \<Rightarrow> jstring list \<times> (jstring \<rightharpoonup> jstring) list \<times> 16 word" where
  "parseCsvAuto text =
     (let cleaned = strip_bom text;
          lines = filter (\<lambda>l. trim l \<noteq> []) (split_lines [] cleaned)
      in if length lines < 2 then ([], [], 0x3B)
         else
           let headerLine = lines ! 0;
               semicolons = length (filter (\<lambda>c. c = 0x3B) headerLine);
               commas = length (filter (\<lambda>c. c = 0x2C) headerLine);
               sep = (if semicolons \<ge> commas then 0x3B else 0x2C);
               headers = map (\<lambda>s. strip_quotes (strip_bom (trim s))) (split_sep sep [] headerLine);
               rows = map (\<lambda>line. row_object headers (split_sep sep [] line)) (drop 1 lines)
           in (headers, rows, sep))"

text \<open>\<^verbatim>\<open>s.replace(",", ".")\<close>: the first comma only.\<close>

definition replace_comma :: "jstring \<Rightarrow> jstring" where
  "replace_comma s =
     takeWhile (\<lambda>c. c \<noteq> 0x2C) s @
     (case dropWhile (\<lambda>c. c \<noteq> 0x2C) s of [] \<Rightarrow> [] | c # r \<Rightarrow> 0x2E # r)"

text \<open>\<^verbatim>\<open>r[key] ?? ""\<close>.\<close>

definition field :: "(jstring \<rightharpoonup> jstring) \<Rightarrow> jstring \<Rightarrow> jstring" where
  "field r key = (case r key of None \<Rightarrow> [] | Some v \<Rightarrow> v)"

text \<open>The row normalisation inside \<^verbatim>\<open>onPickPlanFile\<close>: the mapping and the filter.\<close>

definition normalizeRow :: "(jstring \<Rightarrow> jsnum) \<Rightarrow> (jstring \<rightharpoonup> jstring) \<Rightarrow> PlanRow" where
  "normalizeRow Number r =
     (let codice = strip_quotes (trim (field r (js ''Codice'')));
          denominazione = strip_quotes (trim (field r (js ''Denominazione'')));
          cfuRaw = replace_comma (trim (field r (js ''CFU'')));
          cfu = parseCfu (Number cfuRaw)
      in \<lparr>r_codice = codice, r_denominazione = denominazione, r_cfu = cfu\<rparr>)"

definition planRows_of :: "(jstring \<Rightarrow> jsnum) \<Rightarrow> (jstring \<rightharpoonup> jstring) list \<Rightarrow> PlanRow list" where
  "planRows_of Number rows =
     filter (\<lambda>x. length (r_codice x) > 0 \<and> length (r_denominazione x) > 0 \<and> r_cfu x > 0)
       (map (normalizeRow Number) rows)"

text \<open>
  The picked file: its name and the outcome of \<^verbatim>\<open>file.arrayBuffer()\<close>, which is
  either the bytes or the rejection of the read.
\<close>

record File =
  f_name :: jstring
  f_arrayBuffer :: "error + 8 word list"

text \<open>
  The outside world of \<^verbatim>\<open>onPickPlanFile\<close>: what the two requests and the
  confirmation dialogue answer. A request is either rejected or answered with a status; of
  the answer to the check the handler reads the text (\<open>None\<close> when reading it fails), of
  the answer to the save whether the parsed body has a truthy \<^verbatim>\<open>ok\<close> and its
  \<^verbatim>\<open>JSON.stringify\<close>.
\<close>

record Env =
  apiGetPlan :: "jstring \<Rightarrow> error + nat \<times> jstring option"
  confirm :: "jstring \<Rightarrow> bool"
  apiSavePlan :: "jstring \<Rightarrow> PlanRow list \<Rightarrow> error + nat \<times> bool \<times> jstring"

text \<open>\<^verbatim>\<open>res.ok\<close>.\<close>

definition ok :: "nat \<Rightarrow> bool" where
  "ok st \<longleftrightarrow> 200 \<le> st \<and> st \<le> 299"

text \<open>
  The part of \<^verbatim>\<open>onPickPlanFile\<close> after \<^verbatim>\<open>setExams(next)\<close>: the check, the
  confirmation and the save. (\<^verbatim>\<open>flashStatus\<close> sets the status; the timer that clears
  it later is not modelled.)
\<close>

definition save_plan :: "Env \<Rightarrow> jstring \<Rightarrow> PlanRow list \<Rightarrow> State \<Rightarrow> (error + unit) \<times> State" where
  "save_plan env code planRows s2 =
     (let s3 = s2\<lparr>sent := sent s2 @ [GetPlan code]\<rparr>
      in case apiGetPlan env code of
           Inl e \<Rightarrow> (Inl e, s3)
         | Inr (st, txt) \<Rightarrow>
             if ok st \<and>
                \<not> confirm env (js ''Il piano '' @ code @ js '' esiste gi'' @ [0xE0] @
                                js ''. Vuoi sovrascrivere?'')
             then (Inr (), s3\<lparr>status := js ''Piano caricato in UI, ma NON salvato(annullato).''\<rparr>)
             else if \<not> ok st \<and> st \<noteq> 404
             then (Inl (Error (js ''Errore verifica ('' @ String_of_int (int st) @ js ''): '' @
                               (case txt of None \<Rightarrow> [] | Some t \<Rightarrow> t))), s3)
             else
               let s4 = s3\<lparr>status := js ''Salvataggio ('' @ code @ js '')...'',
                            sent := sent s3 @ [SavePlan code planRows]\<rparr>
               in case apiSavePlan env code planRows of
                    Inl e \<Rightarrow> (Inl e, s4)
                  | Inr (st', json_ok, json_text) \<Rightarrow>
                      if \<not> ok st' \<or> \<not> json_ok
                      then (Inl (Error (js ''Errore salvataggio API: '' @ json_text)), s4)
                      else (Inr (), s4\<lparr>status := js ''Piano salvato.''\<rparr>))"

definition onPickPlanFile ::
  "(jstring \<Rightarrow> jsnum) \<Rightarrow> (encoding \<Rightarrow> 8 word list \<Rightarrow> jstring) \<Rightarrow> (nat \<Rightarrow> jstring) \<Rightarrow> Env \<Rightarrow>
   File \<Rightarrow> State \<Rightarrow> (error + unit) \<times> State" where
  "onPickPlanFile Number decode makeId env file s =
     (case parseCourseFromFilename (f_name file) of
        None \<Rightarrow>
          (Inl (Error (js ''Nome file non valido. Deve essere tipo '' @ [0x22] @
                       js ''70-89.csv'' @ [0x22] @ js ''.'')), s)
      | Some (xx, yy) \<Rightarrow>
          let code = xx @ js ''-'' @ yy;
              s1 = s\<lparr>courseXX := xx, courseYY := yy\<rparr>
          in case f_arrayBuffer file of
               Inl e \<Rightarrow> (Inl e, s1)
             | Inr bytes \<Rightarrow>
                 let text = readFileTextUtf8OrUtf16 decode bytes;
                     (headers, rows, sep) = parseCsvAuto text
                 in case requireExactHeaders headers EXPECTED_HEADERS of
                      Inl e \<Rightarrow> (Inl e, s1)
                    | Inr u \<Rightarrow>
                        let planRows = planRows_of Number rows
                        in if length planRows = 0
                           then (Inl (Error (js ''CSV valido ma nessuna riga utile (Codice/Denominazione/CFU vuoti?).'')), s1)
                           else
                             let next = map (\<lambda>(i, p). \<lparr>e_id = makeId (made s1 + i),
                                                        e_name = r_denominazione p,
                                                        e_cfu = r_cfu p, e_grade = []\<rparr>)
                                          (zip [0..<length planRows] planRows);
                                 s2 = s1\<lparr>exams := next, made := made s1 + length planRows,
                                          status := js ''Verifico il piano '' @ code @ js ''...''\<rparr>
                             in save_plan env code planRows s2)"

text \<open>An instance of the decoder for evaluating concrete inputs: ASCII bytes read as UTF-8.\<close>

definition decode_ascii :: "encoding \<Rightarrow> 8 word list \<Rightarrow> jstring" where
  "decode_ascii enc bytes = map ucast bytes"

text \<open>The bytes of an ASCII literal, for writing concrete file contents.\<close>

definition ascii_bytes :: "string \<Rightarrow> 8 word list" where
  "ascii_bytes s = map of_char s"

section \<open>The server: creating a plan\<close>

text \<open>
  A parsed JSON value, as \<^verbatim>\<open>express.json\<close> leaves it in \<^verbatim>\<open>req.body\<close>. Object
  members are kept in the order of the text; \<open>get_prop\<close> reads a member, the last one of a
  repeated name, and gives \<open>None\<close> (\<^verbatim>\<open>undefined\<close>) for a missing member and for a
  value that is not an object.
\<close>

datatype json =
  JNull | JBool bool | JNum jsnum | JStr jstring | JArr "json list" | JObj "(jstring \<times> json) list"

fun get_prop :: "json \<Rightarrow> jstring \<Rightarrow> json option" where
  "get_prop (JObj kvs) k = map_of (rev kvs) k"
| "get_prop v k = None"

text \<open>\<^verbatim>\<open>CODE_RE.test\<close> with \<^verbatim>\<open>/^\d{2}-\d{2}$/\<close>.\<close>

definition CODE_RE_test :: "jstring \<Rightarrow> bool" where
  "CODE_RE_test s =
     (case s of [a, b, h, c, d] \<Rightarrow> is_digit a \<and> is_digit b \<and> h = 0x2D \<and> is_digit c \<and> is_digit d
      | _ \<Rightarrow> False)"

definition isValidRow :: "json \<Rightarrow> bool" where
  "isValidRow r =
     (case r of
        JObj kvs \<Rightarrow>
          (case get_prop r (js ''codice'') of Some (JStr s) \<Rightarrow> True | _ \<Rightarrow> False) \<and>
          (case get_prop r (js ''denominazione'') of Some (JStr s) \<Rightarrow> True | _ \<Rightarrow> False) \<and>
          (case get_prop r (js ''cfu'') of Some (JNum n) \<Rightarrow> isInteger n | _ \<Rightarrow> False)
      | _ \<Rightarrow> False)"

text \<open>
  \<^verbatim>\<open>String(r.codice)\<close> and \<^verbatim>\<open>Number(r.cfu)\<close> are applied to rows that
  \<^verbatim>\<open>isValidRow\<close> has accepted, where the member is a string, respectively a number, and
  the conversion returns it as it is. They are left unspecified elsewhere.
\<close>

fun String_of :: "json option \<Rightarrow> jstring" where
  "String_of (Some (JStr s)) = s"

fun Number_of :: "json option \<Rightarrow> jsnum" where
  "Number_of (Some (JNum n)) = n"

text \<open>\<^verbatim>\<open>r.cfu >= 1 && r.cfu <= 30\<close> on a number; comparisons with NaN are false.\<close>

fun in_1_30 :: "jsnum \<Rightarrow> bool" where
  "in_1_30 (Fin q) = (q \<ge> 1 \<and> q \<le> 30)"
| "in_1_30 NaN = False"
| "in_1_30 PosInf = False"
| "in_1_30 NegInf = False"

definition clean_row :: "json \<Rightarrow> json" where
  "clean_row r =
     JObj [(js ''codice'', JStr (trim (String_of (get_prop r (js ''codice''))))),
           (js ''denominazione'', JStr (trim (String_of (get_prop r (js ''denominazione''))))),
           (js ''cfu'', JNum (Number_of (get_prop r (js ''cfu''))))]"

definition keep_row :: "json \<Rightarrow> bool" where
  "keep_row r \<longleftrightarrow>
     String_of (get_prop r (js ''codice'')) \<noteq> [] \<and>
     String_of (get_prop r (js ''denominazione'')) \<noteq> [] \<and>
     isInteger (Number_of (get_prop r (js ''cfu''))) \<and>
     in_1_30 (Number_of (get_prop r (js ''cfu'')))"

definition cleaned :: "json list \<Rightarrow> json list" where
  "cleaned rows = take 200 (filter keep_row (map clean_row rows))"

text \<open>
  The cleaning as the specification words it, for comparison: trim, coerce, clamp the
  credit weight into the range from 1 to 30, keep at most 200 rows.
\<close>

fun clamp_1_30 :: "jsnum \<Rightarrow> jsnum" where
  "clamp_1_30 (Fin q) = Fin (max 1 (min 30 q))"
| "clamp_1_30 n = n"

definition cleaned_as_stated :: "json list \<Rightarrow> json list" where
  "cleaned_as_stated rows =
     take 200
       (map (\<lambda>r. JObj [(js ''codice'', JStr (trim (String_of (get_prop r (js ''codice''))))),
                       (js ''denominazione'', JStr (trim (String_of (get_prop r (js ''denominazione''))))),
                       (js ''cfu'', JNum (clamp_1_30 (Number_of (get_prop r (js ''cfu'')))))])
          rows)"

text \<open>\<^verbatim>\<open>s.includes(sub)\<close>.\<close>

fun includes_str :: "jstring \<Rightarrow> jstring \<Rightarrow> bool" where
  "includes_str [] sub = (sub = [])"
| "includes_str (c # cs) sub = (take (length sub) (c # cs) = sub \<or> includes_str cs sub)"

text \<open>
  Modelled from the spec: the table \<^verbatim>\<open>plans\<close> of the managed database and its client
  are not under src/. The table holds at most one document per code; a select by code
  returns the document or nothing; an insert of a code that is present is rejected with
  the store's duplicate-key message and changes nothing. Either call can also fail for a
  reason of the store's own, with a message. \<open>interfere\<close> is what other writers do to
  the table between the handler's select and its insert, \<open>now\<close> the clock.
\<close>

type_synonym store = "jstring \<rightharpoonup> json"

record Db =
  select_error :: "jstring option"
  insert_error :: "jstring option"
  duplicate_message :: jstring
  interfere :: "store \<Rightarrow> store"
  now :: jstring

datatype db_call = Select jstring | Insert json

definition db_select :: "Db \<Rightarrow> store \<Rightarrow> jstring \<Rightarrow> jstring + json option" where
  "db_select db st c = (case select_error db of Some m \<Rightarrow> Inl m | None \<Rightarrow> Inr (st c))"

definition db_insert :: "Db \<Rightarrow> store \<Rightarrow> jstring \<Rightarrow> json \<Rightarrow> (jstring + json) \<times> store" where
  "db_insert db st c payload =
     (case insert_error db of
        Some m \<Rightarrow> (Inl m, st)
      | None \<Rightarrow>
          (case st c of
             Some d \<Rightarrow> (Inl (duplicate_message db), st)
           | None \<Rightarrow> (Inr payload, st(c \<mapsto> payload))))"

text \<open>An HTTP answer: the status and the JSON body.\<close>

datatype response = Response nat json

definition error_body :: "string \<Rightarrow> json" where
  "error_body m = JObj [(js ''error'', JStr (js m))]"

definition conflict :: "jstring \<Rightarrow> response" where
  "conflict codeTrim =
     Response 409 (JObj [(js ''ok'', JBool False), (js ''error'', JStr (js ''Plan already exists'')),
                         (js ''code'', JStr codeTrim)])"

text \<open>
  The handler of \<^verbatim>\<open>POST /api/plans\<close>. It returns the answer, the table afterwards and
  the calls made to the store, in order.
\<close>

definition post_plans ::
  "(jstring \<Rightarrow> jstring) \<Rightarrow> Db \<Rightarrow> json option \<Rightarrow> store \<Rightarrow> response \<times> store \<times> db_call list" where
  "post_plans toLowerCase db body st =
     (let b = (case body of None \<Rightarrow> JObj [] | Some JNull \<Rightarrow> JObj [] | Some v \<Rightarrow> v)
      in case get_prop b (js ''code'') of
           Some (JStr code) \<Rightarrow>
             if code = [] then (Response 400 (error_body ''No code''), st, [])
             else
               let codeTrim = trim code
               in if \<not> CODE_RE_test codeTrim then (Response 400 (error_body ''Bad code''), st, [])
                  else
                    (case get_prop b (js ''rows'') of
                       Some (JArr rows) \<Rightarrow>
                         if length rows = 0 then (Response 400 (error_body ''No rows''), st, [])
                         else if \<not> list_all isValidRow rows
                         then (Response 400 (error_body
                                 ''Bad rows format (expected {codice, denominazione, cfu:int})''), st, [])
                         else
                           let cl = cleaned rows
                           in if length cl = 0
                              then (Response 400 (error_body ''No valid rows after cleaning''), st, [])
                              else
                                (case db_select db st codeTrim of
                                   Inl m \<Rightarrow> (Response 500 (JObj [(js ''error'', JStr m)]), st, [Select codeTrim])
                                 | Inr (Some existing) \<Rightarrow> (conflict codeTrim, st, [Select codeTrim])
                                 | Inr None \<Rightarrow>
                                     let payload = JObj [(js ''code'', JStr codeTrim),
                                                         (js ''rows'', JArr cl),
                                                         (js ''updated_at'', JStr (now db))];
                                         st1 = interfere db st
                                     in case db_insert db st1 codeTrim payload of
                                          (Inl m, st2) \<Rightarrow>
                                            if includes_str (toLowerCase m) (js ''duplicate'')
                                            then (conflict codeTrim, st2, [Select codeTrim, Insert payload])
                                            else (Response 500 (JObj [(js ''error'', JStr m)]), st2,
                                                  [Select codeTrim, Insert payload])
                                        | (Inr data, st2) \<Rightarrow>
                                            (Response 200 (JObj [(js ''ok'', JBool True), (js ''data'', data)]),
                                             st2, [Select codeTrim, Insert payload]))
                     | _ \<Rightarrow> (Response 400 (error_body ''No rows''), st, []))
         | _ \<Rightarrow> (Response 400 (error_body ''No code''), st, []))"

section \<open>Encoding detection\<close>

lemma take2_iff: "take 2 bs = [x, y] \<longleftrightarrow> length bs \<ge> 2 \<and> bs ! 0 = x \<and> bs ! 1 = y"
  by (cases bs; cases "tl bs") (auto simp: numeral_2_eq_2)

lemma take3_iff:
  "take 3 bs = [x, y, z] \<longleftrightarrow> length bs \<ge> 3 \<and> bs ! 0 = x \<and> bs ! 1 = y \<and> bs ! 2 = z"
  by (cases bs; cases "tl bs"; cases "tl (tl bs)") (auto simp: numeral_3_eq_3 numeral_2_eq_2)

text \<open>The loop started at an odd index counts the zero bytes at the odd indices from there on.\<close>

lemma zeroOdd_loop_count:
  "odd i \<Longrightarrow>
   zeroOdd_loop bytes n i z = z + length (filter (\<lambda>j. odd j \<and> bytes ! j = 0) [i..<n])"
proof (induction bytes n i z rule: zeroOdd_loop.induct)
  case (1 bytes n i z)
  show ?case
  proof (cases "i < n")
    case False
    then show ?thesis by simp
  next
    case True
    have skip: "filter (\<lambda>j. odd j \<and> bytes ! j = 0) [Suc i..<n] =
                filter (\<lambda>j. odd j \<and> bytes ! j = 0) [i + 2..<n]"
      using \<open>odd i\<close> by (cases "Suc i < n") (simp_all add: upt_conv_Cons)
    have "odd (i + 2)" using \<open>odd i\<close> by simp
    with 1 True have IH:
      "zeroOdd_loop bytes n (i + 2) (if bytes ! i = 0 then z + 1 else z) =
       (if bytes ! i = 0 then z + 1 else z) +
       length (filter (\<lambda>j. odd j \<and> bytes ! j = 0) [i + 2..<n])"
      by blast
    have "zeroOdd_loop bytes n i z =
          zeroOdd_loop bytes n (i + 2) (if bytes ! i = 0 then z + 1 else z)"
      using True by simp
    also note IH
    finally show ?thesis
      using True \<open>odd i\<close> skip by (simp add: upt_conv_Cons)
  qed
qed

lemma count_odd_upt: "length (filter odd [0..<n]) = n div 2"
  by (induction n) auto

lemma count_le: "length (filter (\<lambda>j. odd j \<and> P j) [0..<n]) \<le> n div 2"
proof -
  have "length (filter (\<lambda>j. odd j \<and> P j) [0..<n]) \<le> length (filter odd [0..<n])"
    by (induction n) auto
  then show ?thesis by (simp add: count_odd_upt)
qed

lemma from1: "filter (\<lambda>j. odd j \<and> P j) [0..<n] = filter (\<lambda>j. odd j \<and> P j) [1..<n]"
  by (cases "0 < n") (simp_all add: upt_conv_Cons)

lemma zcount:
  "zeroOdd_loop bytes n 1 0 = length (filter (\<lambda>i. odd i \<and> bytes ! i = 0) [0..<n])"
proof -
  have "zeroOdd_loop bytes n 1 0 = 0 + length (filter (\<lambda>j. odd j \<and> bytes ! j = 0) [1..<n])"
    by (rule zeroOdd_loop_count) simp
  also have "\<dots> = length (filter (\<lambda>i. odd i \<and> bytes ! i = 0) [0..<n])"
    using from1 [of "\<lambda>j. bytes ! j = 0" n] by simp
  finally show ?thesis .
qed

text \<open>
  Dividing by \<open>max 1 (n / 2)\<close>, as the code does, or by the number \<open>n div 2\<close> of odd
  offsets gives the same verdict against one fifth: both say \<open>n < 10 * z\<close>.
\<close>

lemma ratio_iff:
  assumes "z \<le> n div 2"
  shows "(1 / 5 < (of_nat z :: rat) / max 1 (of_nat n / 2)) \<longleftrightarrow>
         (1 / 5 < (of_nat z :: rat) / of_nat (n div 2))"
proof (cases "n < 2")
  case True
  then have "n div 2 = 0" by simp
  with assms have "z = 0" by simp
  then show ?thesis by simp
next
  case False
  then have m: "max 1 (of_nat n / 2) = (of_nat n / 2 :: rat)" by (simp add: max_def)
  have pos: "0 < n div 2" using False by simp
  have l: "(1 / 5 < (of_nat z :: rat) / (of_nat n / 2)) \<longleftrightarrow> n < 10 * z"
  proof -
    have "(1 / 5 < (of_nat z :: rat) / (of_nat n / 2)) \<longleftrightarrow> (of_nat n :: rat) < of_nat (10 * z)"
      using False by (simp add: field_simps)
    then show ?thesis by (simp only: of_nat_less_iff)
  qed
  have r: "(1 / 5 < (of_nat z :: rat) / of_nat (n div 2)) \<longleftrightarrow> n div 2 < 5 * z"
  proof -
    have "(1 / 5 < (of_nat z :: rat) / of_nat (n div 2)) \<longleftrightarrow>
          (of_nat (n div 2) :: rat) < of_nat (5 * z)"
      using pos by (simp add: field_simps)
    then show ?thesis by (simp only: of_nat_less_iff)
  qed
  have "n < 10 * z \<longleftrightarrow> n div 2 < 5 * z" by arith
  with l r m show ?thesis by simp
qed

lemma sample_enc:
  "(1 / 5 < (of_nat (zeroOdd_loop bytes n 1 0) :: rat) / max 1 (of_nat n / 2)) \<longleftrightarrow>
   (1 / 5 :: rat) < of_nat (length (filter (\<lambda>i. odd i \<and> bytes ! i = 0) [0..<n])) /
                    of_nat (length (filter odd [0..<n]))"
  unfolding zcount count_odd_upt by (rule ratio_iff) (rule count_le)

text \<open>
  C7. A byte-order mark decides the encoding: FF FE is UTF-16LE, FE FF is UTF-16BE,
  EF BB BF is UTF-8. Without a mark the file is decoded as UTF-16LE exactly when, among the
  odd offsets of the first \<open>min (length bytes) 4000\<close> bytes, the fraction holding a zero
  byte exceeds one fifth, and as UTF-8 otherwise.
\<close>

theorem readFile_encoding:
  "readFileTextUtf8OrUtf16 decode bytes =
     decode (if take 2 bytes = [0xFF, 0xFE] then Utf16le
             else if take 2 bytes = [0xFE, 0xFF] then Utf16be
             else if take 3 bytes = [0xEF, 0xBB, 0xBF] then Utf8
             else if (1 / 5 :: rat) <
                  of_nat (length (filter (\<lambda>i. odd i \<and> bytes ! i = 0) [0..<min (length bytes) 4000])) /
                  of_nat (length (filter odd [0..<min (length bytes) 4000]))
             then Utf16le else Utf8) bytes"
  unfolding readFileTextUtf8OrUtf16_def Let_def sample_enc take2_iff take3_iff
  by (simp only: if_distrib [of "\<lambda>e. decode e bytes"] split: if_splits)

theorem readFile_encoding_witness:
  "readFileTextUtf8OrUtf16
     (\<lambda>e b. if e = Utf16le then js ''le'' else if e = Utf8 then js ''u8'' else js ''be'')
     [0x41, 0x00, 0x42, 0x00] = js ''le'' \<and>
   readFileTextUtf8OrUtf16
     (\<lambda>e b. if e = Utf16le then js ''le'' else if e = Utf8 then js ''u8'' else js ''be'')
     [0x41, 0x42, 0x43, 0x44, 0x45, 0x46, 0x47, 0x48, 0x49, 0x4A, 0x4B, 0x00] = js ''u8'' \<and>
   readFileTextUtf8OrUtf16
     (\<lambda>e b. if e = Utf16le then js ''le'' else if e = Utf8 then js ''u8'' else js ''be'')
     [0xFE, 0xFF, 0x00, 0x41] = js ''be''"
  unfolding readFile_encoding
  apply (intro conjI)
  subgoal by code_simp
  subgoal by (simp add: upt_rec js_def)
  subgoal by code_simp
  done

section \<open>Header validation\<close>

lemma nth_eq_all:
  "(length got = length expn \<and> list_all (\<lambda>i. got ! i = expn ! i) [0..<length got]) \<longleftrightarrow>
   got = expn"
proof -
  have "list_all (\<lambda>i. got ! i = expn ! i) [0..<length got] \<longleftrightarrow>
        (\<forall>i<length got. got ! i = expn ! i)"
    by (auto simp: list_all_iff)
  then show ?thesis
    using list_eq_iff_nth_eq [of got expn] by blast
qed

lemma norm_expected: "map normalizeHeaderName EXPECTED_HEADERS = EXPECTED_HEADERS"
  by code_simp

lemma join_expected: "join (js '';'') EXPECTED_HEADERS = js ''Codice;Denominazione;CFU''"
  by code_simp

text \<open>
  C6. Validation against the expected headers succeeds exactly when the headers, each
  normalised (one leading byte-order mark and every NUL removed, then trimmed), are the
  sequence Codice, Denominazione, CFU, in this order and with this spelling. Every other
  header row is rejected with an error whose message names the expected headers and the
  normalised headers that were found.
\<close>

theorem requireExactHeaders_exact:
  "requireExactHeaders headers EXPECTED_HEADERS =
     (if map normalizeHeaderName headers = [js ''Codice'', js ''Denominazione'', js ''CFU'']
      then Inr ()
      else Inl (Error (js ''Header CSV non valido.'' @ [0x0A] @
                       js ''Atteso: Codice;Denominazione;CFU'' @ [0x0A] @
                       js ''Trovato: '' @ join (js '';'') (map normalizeHeaderName headers))))"
  unfolding requireExactHeaders_def Let_def nth_eq_all norm_expected header_error_def join_expected
  by (simp add: EXPECTED_HEADERS_def js_def)

theorem requireExactHeaders_exact_witness:
  "requireExactHeaders [js ''Codice'', js ''Denominazione'', js ''Cfu''] EXPECTED_HEADERS =
     Inl (Error (js ''Header CSV non valido.'' @ [0x0A] @
                 js ''Atteso: Codice;Denominazione;CFU'' @ [0x0A] @
                 js ''Trovato: Codice;Denominazione;Cfu'')) \<and>
   requireExactHeaders [0xFEFF # js ''Codice'', js ''Denominazione'' @ [0], js '' CFU '']
     EXPECTED_HEADERS = Inr ()"
  unfolding requireExactHeaders_exact
  by (simp add: js_def normalizeHeaderName_def trim_def strip_nul_def strip_bom_def is_ws_def)

section \<open>Weighted average\<close>


















section \<open>Merging a fetched plan\<close>

lemma digit_char: "d < 10 \<Longrightarrow> unat (48 + of_nat d :: 16 word) = 48 + d"
proof -
  assume d: "d < 10"
  have "unat (of_nat (48 + d) :: 16 word) = (48 + d) mod 2 ^ LENGTH(16)"
    by (rule unat_of_nat)
  also have "\<dots> = 48 + d" using d by simp
  finally show ?thesis by simp
qed

lemma digits_of_value: "digits_value (digits_of n) = n"
proof (induction n rule: digits_of.induct)
  case (1 n)
  show ?case
  proof (cases "n < 10")
    case True
    then show ?thesis by (subst digits_of.simps) (simp add: digits_value_def digit_char)
  next
    case False
    with 1 have IH: "digits_value (digits_of (n div 10)) = n div 10" by simp
    have "digits_of n = digits_of (n div 10) @ [of_nat (48 + n mod 10)]"
      using False by (subst digits_of.simps) simp
    then have "digits_value (digits_of n) = 10 * digits_value (digits_of (n div 10)) + (unat (of_nat (48 + n mod 10) :: 16 word) - 48)"
      by (simp add: digits_value_def)
    also have "\<dots> = 10 * (n div 10) + n mod 10"
      by (simp add: IH digit_char)
    finally show ?thesis by simp
  qed
qed

lemma digits_of_inj: "digits_of n = digits_of m \<Longrightarrow> n = m"
  by (metis digits_of_value)

lemma digits_of_set: "c \<in> set (digits_of n) \<Longrightarrow> unat c < 58 \<and> 48 \<le> unat c"
proof (induction n rule: digits_of.induct)
  case (1 n)
  show ?case
  proof (cases "n < 10")
    case True
    with 1(2) have "c = of_nat (48 + n)" by (subst (asm) digits_of.simps) simp
    with True show ?thesis by (simp add: digit_char)
  next
    case False
    with 1(2) have "c \<in> set (digits_of (n div 10)) \<or> c = of_nat (48 + n mod 10)"
      by (subst (asm) digits_of.simps) auto
    then show ?thesis
    proof
      assume "c \<in> set (digits_of (n div 10))"
      with 1(1) False show ?thesis by simp
    next
      assume "c = of_nat (48 + n mod 10)"
      then show ?thesis by (simp add: digit_char)
    qed
  qed
qed

lemma digits_of_nonempty: "digits_of n \<noteq> []"
  by (subst digits_of.simps) simp

lemma String_of_int_no_bar: "0x7C \<notin> set (String_of_int i)"
proof
  assume a: "0x7C \<in> set (String_of_int i)"
  then have "(0x7C :: 16 word) = 0x2D \<or> (\<exists>n. 0x7C \<in> set (digits_of n))"
    by (auto simp: String_of_int_def split: if_splits)
  then obtain n where "(0x7C :: 16 word) \<in> set (digits_of n)" by auto
  from digits_of_set [OF this] show False by simp
qed

lemma String_of_int_inj: "String_of_int i = String_of_int j \<Longrightarrow> i = j"
proof -
  assume e: "String_of_int i = String_of_int j"
  have nd: "\<And>n m. 0x2D # digits_of n \<noteq> digits_of m"
  proof
    fix n m assume "0x2D # digits_of n = digits_of m"
    then have "(0x2D :: 16 word) \<in> set (digits_of m)" by (metis list.set_intros(1))
    from digits_of_set [OF this] show False by simp
  qed
  show ?thesis
  proof (cases "i < 0"; cases "j < 0")
    assume "i < 0" "j < 0"
    with e have "nat (- i) = nat (- j)" by (auto simp: String_of_int_def dest: digits_of_inj)
    with \<open>i < 0\<close> \<open>j < 0\<close> show ?thesis by simp
  next
    assume "i < 0" "\<not> j < 0"
    with e nd show ?thesis by (auto simp: String_of_int_def)
  next
    assume "\<not> i < 0" "j < 0"
    with e nd [of "nat (- j)" "nat i"] show ?thesis by (auto simp: String_of_int_def)
  next
    assume "\<not> i < 0" "\<not> j < 0"
    with e have "nat i = nat j" by (auto simp: String_of_int_def dest: digits_of_inj)
    with \<open>\<not> i < 0\<close> \<open>\<not> j < 0\<close> show ?thesis by simp
  qed
qed

lemma bar_split:
  assumes "p \<notin> set x" "p \<notin> set y" "a @ [p] @ x = b @ [p] @ y"
  shows "a = b \<and> x = y"
proof -
  have tw: "takeWhile (\<lambda>c. c \<noteq> p) (u @ p # v) = u" if "p \<notin> set u" for u v :: "'a list"
    using that by (induction u) auto
  have dw: "dropWhile (\<lambda>c. c \<noteq> p) (u @ p # v) = p # v" if "p \<notin> set u" for u v :: "'a list"
    using that by (induction u) auto
  from assms(3) have "rev (a @ [p] @ x) = rev (b @ [p] @ y)"
    by (rule arg_cong)
  then have e: "rev x @ p # rev a = rev y @ p # rev b"
    by simp
  have "rev x = rev y"
    using arg_cong [OF e, of "takeWhile (\<lambda>c. c \<noteq> p)"] assms(1,2) by (simp add: tw)
  moreover have "p # rev a = p # rev b"
    using arg_cong [OF e, of "dropWhile (\<lambda>c. c \<noteq> p)"] assms(1,2) by (simp add: dw)
  ultimately show ?thesis by simp
qed

lemma normKey_eq_iff:
  "normKey lc n c = normKey lc n' c' \<longleftrightarrow>
     collapse_ws (lc (trim n)) = collapse_ws (lc (trim n')) \<and> c = c'"
proof
  assume "normKey lc n c = normKey lc n' c'"
  then have "collapse_ws (lc (trim n)) @ [0x7C] @ String_of_int c =
             collapse_ws (lc (trim n')) @ [0x7C] @ String_of_int c'"
    by (simp add: normKey_def)
  from bar_split [OF String_of_int_no_bar String_of_int_no_bar this]
  show "collapse_ws (lc (trim n)) = collapse_ws (lc (trim n')) \<and> c = c'"
    by (auto dest: String_of_int_inj)
next
  assume "collapse_ws (lc (trim n)) = collapse_ws (lc (trim n')) \<and> c = c'"
  then show "normKey lc n c = normKey lc n' c'" by (simp add: normKey_def)
qed

lemma new_Cons:
  "map ((!) (r # rs)) (filter (\<lambda>i. key ((r # rs) ! i) \<notin> K \<union> key ` set (take i (r # rs))) [0..<length (r # rs)]) =
     (if key r \<in> K
      then map ((!) rs) (filter (\<lambda>i. key (rs ! i) \<notin> K \<union> key ` set (take i rs)) [0..<length rs])
      else r # map ((!) rs) (filter (\<lambda>i. key (rs ! i) \<notin> insert (key r) K \<union> key ` set (take i rs)) [0..<length rs]))"
proof -
  have upt: "[0..<length (r # rs)] = 0 # map Suc [0..<length rs]"
    by (simp add: upt_conv_Cons map_Suc_upt del: upt_Suc)
  have ins: "key r \<in> K \<Longrightarrow> insert (key r) K = K" by auto
  show ?thesis
    unfolding upt
    apply (auto simp: filter_map comp_def ins)
     apply (rule arg_cong [of _ _ "map ((!) rs)"], rule filter_cong, auto)+
    done
qed

lemma addSelected_loop_char:
  "map (\<lambda>e. (e_name e, e_cfu e, e_grade e)) (fst (addSelected_loop lc mk rs K acc n)) =
     map (\<lambda>e. (e_name e, e_cfu e, e_grade e)) acc @
     map (\<lambda>r. (r_denominazione r, r_cfu r, []))
       (map ((!) rs)
          (filter (\<lambda>i. normKey lc (r_denominazione (rs ! i)) (r_cfu (rs ! i)) \<notin>
                        K \<union> (\<lambda>r. normKey lc (r_denominazione r) (r_cfu r)) ` set (take i rs))
             [0..<length rs]))"
proof (induction rs arbitrary: K acc n)
  case Nil
  then show ?case by simp
next
  case (Cons r rs)
  show ?case
    apply (subst new_Cons [where key = "\<lambda>r. normKey lc (r_denominazione r) (r_cfu r)"])
    apply (simp add: Let_def Cons.IH)
    done
qed

lemma new_notin:
  "q \<in> set (map ((!) rs) (filter (\<lambda>i. key (rs ! i) \<notin> K \<union> key ` set (take i rs)) [0..<length rs])) \<Longrightarrow>
   key q \<notin> K"
  by auto

lemma new_filter_key:
  "k \<notin> K \<Longrightarrow>
   filter (\<lambda>q. key q = k)
     (map ((!) rs) (filter (\<lambda>i. key (rs ! i) \<notin> K \<union> key ` set (take i rs)) [0..<length rs])) =
   (case find (\<lambda>q. key q = k) rs of Some r0 \<Rightarrow> [r0] | None \<Rightarrow> [])"
proof (induction rs arbitrary: K)
  case Nil
  then show ?case by simp
next
  case (Cons r rs)
  let ?new = "\<lambda>K. map ((!) rs) (filter (\<lambda>i. key (rs ! i) \<notin> K \<union> key ` set (take i rs)) [0..<length rs])"
  show ?case
  proof (cases "key r \<in> K")
    case True
    with Cons.prems have neq: "key r \<noteq> k" by auto
    have "filter (\<lambda>q. key q = k) (?new K) =
          (case find (\<lambda>q. key q = k) rs of Some r0 \<Rightarrow> [r0] | None \<Rightarrow> [])"
      by (rule Cons.IH [OF Cons.prems])
    then show ?thesis
      by (subst new_Cons) (simp only: True if_True find.simps neq if_False)
  next
    case False
    show ?thesis
    proof (cases "key r = k")
      case True
      have "\<forall>q \<in> set (?new (insert (key r) K)). key q \<noteq> k"
      proof
        fix q assume "q \<in> set (?new (insert (key r) K))"
        then have "key q \<notin> insert (key r) K" by (rule new_notin)
        then show "key q \<noteq> k" using True by auto
      qed
      then have "filter (\<lambda>q. key q = k) (?new (insert (key r) K)) = []"
        by (simp only: filter_empty_conv)
      then show ?thesis
        using Cons.prems True by (subst new_Cons) simp
    next
      case neq: False
      then have "k \<notin> insert (key r) K" using Cons.prems by auto
      from Cons.IH [OF this]
      have "filter (\<lambda>q. key q = k) (?new (insert (key r) K)) =
          (case find (\<lambda>q. key q = k) rs of Some r0 \<Rightarrow> [r0] | None \<Rightarrow> [])" .
      then show ?thesis
        by (subst new_Cons) (simp only: False if_False find.simps neq filter.simps)
    qed
  qed
qed

lemma addSelectedFromFound_exams:
  assumes "foundPlan s = Some plan"
    and "nths (d_rows plan) (selectedIdx s) = selected"
    and "selected \<noteq> []"
  shows "\<exists>toAdd n.
     addSelectedFromFound lc mk s =
       (closeLookup s)\<lparr>exams := exams s @ toAdd, made := n,
         status := js ''Aggiunti '' @ String_of_int (int (length toAdd)) @
                   js '' esami dal piano '' @ d_code plan @
                   (if length selected - length toAdd > 0
                    then js '' (saltati '' @ String_of_int (int (length selected - length toAdd)) @
                         js '' duplicati).''
                    else js ''.'')\<rparr> \<and>
     map (\<lambda>e. (e_name e, e_cfu e, e_grade e)) toAdd =
       map (\<lambda>r. (r_denominazione r, r_cfu r, []))
         (map ((!) selected)
            (filter (\<lambda>i. normKey lc (r_denominazione (selected ! i)) (r_cfu (selected ! i)) \<notin>
                          set (map (\<lambda>e. normKey lc (e_name e) (e_cfu e)) (exams s)) \<union>
                          (\<lambda>r. normKey lc (r_denominazione r) (r_cfu r)) ` set (take i selected))
               [0..<length selected]))"
proof -
  let ?K = "set (map (\<lambda>e. normKey lc (e_name e) (e_cfu e)) (exams s))"
  obtain toAdd n where L: "addSelected_loop lc mk selected ?K [] (made s) = (toAdd, n)"
    by (cases "addSelected_loop lc mk selected ?K [] (made s)")
  have C: "map (\<lambda>e. (e_name e, e_cfu e, e_grade e)) toAdd =
       map (\<lambda>r. (r_denominazione r, r_cfu r, []))
         (map ((!) selected)
            (filter (\<lambda>i. normKey lc (r_denominazione (selected ! i)) (r_cfu (selected ! i)) \<notin>
                          ?K \<union> (\<lambda>r. normKey lc (r_denominazione r) (r_cfu r)) ` set (take i selected))
               [0..<length selected]))"
    using addSelected_loop_char [of lc mk selected ?K "[]" "made s"] L by simp
  have S: "addSelectedFromFound lc mk s =
       (closeLookup s)\<lparr>exams := exams s @ toAdd, made := n,
         status := js ''Aggiunti '' @ String_of_int (int (length toAdd)) @
                   js '' esami dal piano '' @ d_code plan @
                   (if length selected - length toAdd > 0
                    then js '' (saltati '' @ String_of_int (int (length selected - length toAdd)) @
                         js '' duplicati).''
                    else js ''.'')\<rparr>"
    using assms L by (simp add: addSelectedFromFound_def Let_def closeLookup_def)
  from S C show ?thesis by blast
qed

text \<open>
  C5 (as amended). Merging the selected rows of the fetched plan appends to the exam list
  one new exam, with an empty grade, for exactly those selected rows whose key occurs
  neither in the exam list before the merge nor at an earlier selected row; the other
  selected rows are skipped, and their number is reported in the status line. Two keys
  are equal exactly when the lower-cased, white-space-collapsed trimmed titles are equal
  and the credit weights are equal, so a row that differs from an exam in the credit weight
  only has a different key.
\<close>

theorem addSelectedFromFound_merge:
  assumes "foundPlan s = Some plan"
    and "nths (d_rows plan) (selectedIdx s) = selected"
    and "selected \<noteq> []"
  shows
    "(let new = map ((!) selected)
                  (filter (\<lambda>i. normKey lc (r_denominazione (selected ! i)) (r_cfu (selected ! i)) \<notin>
                                set (map (\<lambda>e. normKey lc (e_name e) (e_cfu e)) (exams s)) \<union>
                                (\<lambda>r. normKey lc (r_denominazione r) (r_cfu r)) ` set (take i selected))
                     [0..<length selected]);
          skipped = length selected - length new
      in map (\<lambda>e. (e_name e, e_cfu e, e_grade e)) (exams (addSelectedFromFound lc mk s)) =
           map (\<lambda>e. (e_name e, e_cfu e, e_grade e)) (exams s) @
           map (\<lambda>r. (r_denominazione r, r_cfu r, [])) new \<and>
         status (addSelectedFromFound lc mk s) =
           js ''Aggiunti '' @ String_of_int (int (length new)) @
           js '' esami dal piano '' @ d_code plan @
           (if skipped > 0
            then js '' (saltati '' @ String_of_int (int skipped) @ js '' duplicati).''
            else js ''.'')) \<and>
     (\<forall>t c t' c'. normKey lc t c = normKey lc t' c' \<longleftrightarrow>
                    collapse_ws (lc (trim t)) = collapse_ws (lc (trim t')) \<and> c = c')"
proof -
  from addSelectedFromFound_exams [OF assms, of lc mk]
  obtain toAdd n where
    S: "addSelectedFromFound lc mk s =
       (closeLookup s)\<lparr>exams := exams s @ toAdd, made := n,
         status := js ''Aggiunti '' @ String_of_int (int (length toAdd)) @
                   js '' esami dal piano '' @ d_code plan @
                   (if length selected - length toAdd > 0
                    then js '' (saltati '' @ String_of_int (int (length selected - length toAdd)) @
                         js '' duplicati).''
                    else js ''.'')\<rparr>"
    and C: "map (\<lambda>e. (e_name e, e_cfu e, e_grade e)) toAdd =
       map (\<lambda>r. (r_denominazione r, r_cfu r, []))
         (map ((!) selected)
            (filter (\<lambda>i. normKey lc (r_denominazione (selected ! i)) (r_cfu (selected ! i)) \<notin>
                          set (map (\<lambda>e. normKey lc (e_name e) (e_cfu e)) (exams s)) \<union>
                          (\<lambda>r. normKey lc (r_denominazione r) (r_cfu r)) ` set (take i selected))
               [0..<length selected]))"
    by blast
  have len: "length toAdd =
       length (filter (\<lambda>i. normKey lc (r_denominazione (selected ! i)) (r_cfu (selected ! i)) \<notin>
                          set (map (\<lambda>e. normKey lc (e_name e) (e_cfu e)) (exams s)) \<union>
                          (\<lambda>r. normKey lc (r_denominazione r) (r_cfu r)) ` set (take i selected))
               [0..<length selected])"
    using arg_cong [OF C, of length] by simp
  have E: "exams (addSelectedFromFound lc mk s) = exams s @ toAdd"
    by (simp add: S closeLookup_def)
  have T: "status (addSelectedFromFound lc mk s) =
         js ''Aggiunti '' @ String_of_int (int (length toAdd)) @
         js '' esami dal piano '' @ d_code plan @
         (if length selected - length toAdd > 0
          then js '' (saltati '' @ String_of_int (int (length selected - length toAdd)) @
               js '' duplicati).''
          else js ''.'')"
    by (simp add: S)
  show ?thesis
    unfolding Let_def E T by (simp add: C len normKey_eq_iff)
qed


theorem addSelectedFromFound_merge_witness:
  "map (\<lambda>e. (e_name e, e_cfu e, e_grade e))
     (exams (addSelectedFromFound toLowerCase_ascii (\<lambda>n. js ''id'' @ String_of_int (int n))
       \<lparr>exams = [\<lparr>e_id = js ''x'', e_name = js ''Analisi 1'', e_cfu = 6, e_grade = js ''28''\<rparr>],
        status = [], courseXX = [], courseYY = [], lookupOpen = True, lookupLoading = False,
        lookupMessage = [],
        foundPlan = Some \<lparr>d_code = js ''07-89'',
          d_rows = [\<lparr>r_codice = js ''A1'', r_denominazione = js ''ANALISI   1'', r_cfu = 6\<rparr>,
                    \<lparr>r_codice = js ''A2'', r_denominazione = js ''Analisi 1'', r_cfu = 9\<rparr>],
          d_updated_at = None\<rparr>,
        selectedIdx = {0, 1}, made = 0, sent = []\<rparr>)) =
   [(js ''Analisi 1'', 6, js ''28''), (js ''Analisi 1'', 9, [])] \<and>
   status (addSelectedFromFound toLowerCase_ascii (\<lambda>n. js ''id'' @ String_of_int (int n))
       \<lparr>exams = [\<lparr>e_id = js ''x'', e_name = js ''Analisi 1'', e_cfu = 6, e_grade = js ''28''\<rparr>],
        status = [], courseXX = [], courseYY = [], lookupOpen = True, lookupLoading = False,
        lookupMessage = [],
        foundPlan = Some \<lparr>d_code = js ''07-89'',
          d_rows = [\<lparr>r_codice = js ''A1'', r_denominazione = js ''ANALISI   1'', r_cfu = 6\<rparr>,
                    \<lparr>r_codice = js ''A2'', r_denominazione = js ''Analisi 1'', r_cfu = 9\<rparr>],
          d_updated_at = None\<rparr>,
        selectedIdx = {0, 1}, made = 0, sent = []\<rparr>) =
   js ''Aggiunti 1 esami dal piano 07-89 (saltati 1 duplicati).''"
proof -
  let ?plan = "\<lparr>d_code = js ''07-89'',
          d_rows = [\<lparr>r_codice = js ''A1'', r_denominazione = js ''ANALISI   1'', r_cfu = 6\<rparr>,
                    \<lparr>r_codice = js ''A2'', r_denominazione = js ''Analisi 1'', r_cfu = 9\<rparr>],
          d_updated_at = None\<rparr>"
  let ?s = "\<lparr>exams = [\<lparr>e_id = js ''x'', e_name = js ''Analisi 1'', e_cfu = 6, e_grade = js ''28''\<rparr>],
        status = [], courseXX = [], courseYY = [], lookupOpen = True, lookupLoading = False,
        lookupMessage = [], foundPlan = Some ?plan, selectedIdx = {0, 1}, made = 0, sent = []\<rparr>"
  have h1: "foundPlan ?s = Some ?plan" by simp
  have h2: "nths (d_rows ?plan) (selectedIdx ?s) = d_rows ?plan" by code_simp
  have h3: "d_rows ?plan \<noteq> []" by simp
  note t = addSelectedFromFound_merge [OF h1 h2 h3, of toLowerCase_ascii
      "\<lambda>n. js ''id'' @ String_of_int (int n)", unfolded Let_def, THEN conjunct1]
  show ?thesis
    apply (rule conjI)
     apply (rule trans [OF t [THEN conjunct1]])
     apply code_simp
    apply (rule trans [OF t [THEN conjunct2]])
    apply code_simp
    done
qed

text \<open>
  C5 as stated fails: with an empty exam list and two selected rows that share a key, the
  key of the second row does not occur in the exam list, yet only the first row is added.
\<close>

theorem merge_local_list_only_counterexample:
  "normKey toLowerCase_ascii (js ''ANALISI 1'') 6 \<notin>
     set (map (\<lambda>e. normKey toLowerCase_ascii (e_name e) (e_cfu e)) []) \<and>
   map (\<lambda>e. (e_name e, e_cfu e, e_grade e))
     (exams (addSelectedFromFound toLowerCase_ascii (\<lambda>n. js ''id'' @ String_of_int (int n))
       \<lparr>exams = [], status = [], courseXX = [], courseYY = [], lookupOpen = True,
        lookupLoading = False, lookupMessage = [],
        foundPlan = Some \<lparr>d_code = js ''07-89'',
          d_rows = [\<lparr>r_codice = js ''A1'', r_denominazione = js ''Analisi 1'', r_cfu = 6\<rparr>,
                    \<lparr>r_codice = js ''A2'', r_denominazione = js ''ANALISI 1'', r_cfu = 6\<rparr>],
          d_updated_at = None\<rparr>,
        selectedIdx = {0, 1}, made = 0, sent = []\<rparr>)) =
   [(js ''Analisi 1'', 6, [])]"
  by code_simp


text \<open>
  C10. Deduplication applies within the selected batch: for a selected row whose key does
  not occur in the exam list before the merge, the merged list holds exactly one exam with
  that key, and it is built from the first selected row that has the key.
\<close>

theorem addSelectedFromFound_first_of_key:
  assumes "foundPlan s = Some plan"
    and "nths (d_rows plan) (selectedIdx s) = selected"
    and "r \<in> set selected"
    and "normKey lc (r_denominazione r) (r_cfu r) \<notin>
         set (map (\<lambda>e. normKey lc (e_name e) (e_cfu e)) (exams s))"
  shows "\<exists>r0. find (\<lambda>q. normKey lc (r_denominazione q) (r_cfu q) =
                        normKey lc (r_denominazione r) (r_cfu r)) selected = Some r0 \<and>
           map (\<lambda>e. (e_name e, e_cfu e, e_grade e))
             (filter (\<lambda>e. normKey lc (e_name e) (e_cfu e) = normKey lc (r_denominazione r) (r_cfu r))
                (exams (addSelectedFromFound lc mk s))) =
           [(r_denominazione r0, r_cfu r0, [])]"
proof -
  let ?k = "normKey lc (r_denominazione r) (r_cfu r)"
  let ?key = "\<lambda>q. normKey lc (r_denominazione q) (r_cfu q)"
  let ?ek = "\<lambda>e. normKey lc (e_name e) (e_cfu e)"
  let ?st = "\<lambda>e. (e_name e, e_cfu e, e_grade e)"
  let ?tr = "\<lambda>r. (r_denominazione r, r_cfu r, [] :: jstring)"
  let ?tk = "\<lambda>t :: jstring \<times> int \<times> jstring. normKey lc (fst t) (fst (snd t))"
  let ?new = "map ((!) selected)
            (filter (\<lambda>i. ?key (selected ! i) \<notin> set (map ?ek (exams s)) \<union> ?key ` set (take i selected))
               [0..<length selected])"
  from assms(3) have ne: "selected \<noteq> []" by auto
  from addSelectedFromFound_exams [OF assms(1,2) ne, of lc mk]
  obtain toAdd n where
    S: "exams (addSelectedFromFound lc mk s) = exams s @ toAdd"
    and C: "map ?st toAdd = map ?tr ?new"
    by (auto simp: closeLookup_def)
  from assms(3) obtain r0 where f: "find (\<lambda>q. ?key q = ?k) selected = Some r0"
    by (cases "find (\<lambda>q. ?key q = ?k) selected") (auto simp: find_None_iff)
  have old: "filter (\<lambda>e. ?ek e = ?k) (exams s) = []"
    using assms(4) by (auto simp: filter_empty_conv intro: rev_image_eqI)
  have "map ?st (filter (\<lambda>e. ?ek e = ?k) toAdd) = filter (\<lambda>t. ?tk t = ?k) (map ?st toAdd)"
    by (simp add: filter_map comp_def)
  also have "\<dots> = filter (\<lambda>t. ?tk t = ?k) (map ?tr ?new)"
    by (simp only: C)
  also have "\<dots> = map ?tr (filter (\<lambda>q. ?key q = ?k) ?new)"
    by (simp add: filter_map comp_def)
  also have "filter (\<lambda>q. ?key q = ?k) ?new = [r0]"
    using new_filter_key [of ?k "set (map ?ek (exams s))" ?key selected] assms(4) f by simp
  finally have "map ?st (filter (\<lambda>e. ?ek e = ?k) toAdd) = [?tr r0]" by simp
  with f old S show ?thesis by simp
qed

theorem addSelectedFromFound_first_of_key_witness:
  "find (\<lambda>q. normKey toLowerCase_ascii (r_denominazione q) (r_cfu q) =
              normKey toLowerCase_ascii (js ''ANALISI 1'') 6)
     [\<lparr>r_codice = js ''A1'', r_denominazione = js ''Analisi 1'', r_cfu = 6\<rparr>,
      \<lparr>r_codice = js ''A2'', r_denominazione = js ''ANALISI 1'', r_cfu = 6\<rparr>] =
     Some \<lparr>r_codice = js ''A1'', r_denominazione = js ''Analisi 1'', r_cfu = 6\<rparr> \<and>
   map (\<lambda>e. (e_name e, e_cfu e, e_grade e))
     (filter (\<lambda>e. normKey toLowerCase_ascii (e_name e) (e_cfu e) =
                   normKey toLowerCase_ascii (js ''ANALISI 1'') 6)
        (exams (addSelectedFromFound toLowerCase_ascii (\<lambda>n. js ''id'' @ String_of_int (int n))
          \<lparr>exams = [\<lparr>e_id = js ''x'', e_name = js ''Fisica'', e_cfu = 6, e_grade = js ''28''\<rparr>],
           status = [], courseXX = [], courseYY = [], lookupOpen = True,
           lookupLoading = False, lookupMessage = [],
           foundPlan = Some \<lparr>d_code = js ''07-89'',
             d_rows = [\<lparr>r_codice = js ''A1'', r_denominazione = js ''Analisi 1'', r_cfu = 6\<rparr>,
                       \<lparr>r_codice = js ''A2'', r_denominazione = js ''ANALISI 1'', r_cfu = 6\<rparr>],
             d_updated_at = None\<rparr>,
           selectedIdx = {0, 1}, made = 0, sent = []\<rparr>))) =
   [(js ''Analisi 1'', 6, [])]"
proof -
  let ?r1 = "\<lparr>r_codice = js ''A1'', r_denominazione = js ''Analisi 1'', r_cfu = 6\<rparr>"
  let ?r2 = "\<lparr>r_codice = js ''A2'', r_denominazione = js ''ANALISI 1'', r_cfu = 6\<rparr>"
  let ?plan = "\<lparr>d_code = js ''07-89'', d_rows = [?r1, ?r2], d_updated_at = None\<rparr>"
  let ?s = "\<lparr>exams = [\<lparr>e_id = js ''x'', e_name = js ''Fisica'', e_cfu = 6, e_grade = js ''28''\<rparr>],
           status = [], courseXX = [], courseYY = [], lookupOpen = True,
           lookupLoading = False, lookupMessage = [],
           foundPlan = Some ?plan, selectedIdx = {0, 1}, made = 0, sent = []\<rparr>"
  have h1: "foundPlan ?s = Some ?plan" by simp
  have h2: "nths (d_rows ?plan) (selectedIdx ?s) = [?r1, ?r2]" by code_simp
  have h3: "?r2 \<in> set [?r1, ?r2]" by simp
  have h4: "normKey toLowerCase_ascii (r_denominazione ?r2) (r_cfu ?r2) \<notin>
         set (map (\<lambda>e. normKey toLowerCase_ascii (e_name e) (e_cfu e)) (exams ?s))"
    by code_simp
  have f: "find (\<lambda>q. normKey toLowerCase_ascii (r_denominazione q) (r_cfu q) =
              normKey toLowerCase_ascii (js ''ANALISI 1'') 6) [?r1, ?r2] = Some ?r1"
    by code_simp
  from addSelectedFromFound_first_of_key [OF h1 h2 h3 h4,
      of "\<lambda>n. js ''id'' @ String_of_int (int n)"] f
  show ?thesis by simp
qed

section \<open>Row normalisation\<close>

text \<open>
  C8 (as amended). The CFU field of a row is trimmed, its first comma is replaced by a dot,
  it is converted to a number and then to a non-negative integer: the floor of a finite
  value, at least 0, and 0 for a value that is not finite; so 30.9 becomes 30, and so does
  the field \<open>30,5\<close> once its conversion is 30.5. A row is kept exactly when its
  codice and its denominazione are non-empty after trimming and after removing one leading
  and one trailing double quote, and its normalised CFU is strictly positive.
\<close>

theorem planRows_of_spec:
  "planRows_of Number rows =
     map (normalizeRow Number)
       (filter (\<lambda>r. strip_quotes (trim (field r (js ''Codice''))) \<noteq> [] \<and>
                    strip_quotes (trim (field r (js ''Denominazione''))) \<noteq> [] \<and>
                    0 < parseCfu (Number (replace_comma (trim (field r (js ''CFU''))))))
          rows) \<and>
   (\<forall>r. r_cfu (normalizeRow Number r) = parseCfu (Number (replace_comma (trim (field r (js ''CFU'')))))) \<and>
   (\<forall>n. 0 \<le> parseCfu n) \<and>
   (\<forall>q. parseCfu (Fin q) = max 0 \<lfloor>q\<rfloor>) \<and>
   (\<forall>n. \<not> isFinite n \<longrightarrow> parseCfu n = 0) \<and>
   parseCfu (Fin (309 / 10)) = 30 \<and>
   (Number (js ''30.5'') = Fin (61 / 2) \<longrightarrow>
      r_cfu (normalizeRow Number [js ''CFU'' \<mapsto> js ''30,5'']) = 30)"
proof -
  have a: "planRows_of Number rows =
     map (normalizeRow Number)
       (filter (\<lambda>r. strip_quotes (trim (field r (js ''Codice''))) \<noteq> [] \<and>
                    strip_quotes (trim (field r (js ''Denominazione''))) \<noteq> [] \<and>
                    0 < parseCfu (Number (replace_comma (trim (field r (js ''CFU''))))))
          rows)"
    by (simp add: planRows_of_def filter_map comp_def normalizeRow_def Let_def)
  have b: "\<forall>r. r_cfu (normalizeRow Number r) = parseCfu (Number (replace_comma (trim (field r (js ''CFU'')))))"
    by (simp add: normalizeRow_def Let_def)
  have c: "\<forall>n. 0 \<le> parseCfu n"
    by (simp add: parseCfu_def split: jsnum.splits)
  have d: "\<forall>q. parseCfu (Fin q) = max 0 \<lfloor>q\<rfloor>"
    by (simp add: parseCfu_def)
  have e: "\<forall>n. \<not> isFinite n \<longrightarrow> parseCfu n = 0"
    by (simp add: parseCfu_def split: jsnum.splits)
  have f: "parseCfu (Fin (309 / 10)) = 30"
    by code_simp
  have g0: "replace_comma (trim (field [js ''CFU'' \<mapsto> js ''30,5''] (js ''CFU''))) = js ''30.5''"
    by code_simp
  have g1: "parseCfu (Fin (61 / 2)) = 30"
    by code_simp
  have g: "Number (js ''30.5'') = Fin (61 / 2) \<longrightarrow>
      r_cfu (normalizeRow Number [js ''CFU'' \<mapsto> js ''30,5'']) = 30"
    by (simp add: normalizeRow_def Let_def g0 g1)
  from a b c d e f g show ?thesis by blast
qed

theorem planRows_of_spec_witness:
  "Number_decimal (js ''30.5'') = Fin (61 / 2) \<and>
   r_cfu (normalizeRow Number_decimal [js ''CFU'' \<mapsto> js ''30,5'']) = 30 \<and>
   planRows_of Number_decimal
     [[js ''Codice'' \<mapsto> js ''A1'', js ''Denominazione'' \<mapsto> js ''Analisi 1'', js ''CFU'' \<mapsto> js ''30,5''],
      [js ''Codice'' \<mapsto> js ''F1'', js ''Denominazione'' \<mapsto> js ''  '', js ''CFU'' \<mapsto> js ''6''],
      [js ''Codice'' \<mapsto> js ''C1'', js ''Denominazione'' \<mapsto> js ''Chimica'', js ''CFU'' \<mapsto> js ''0.9'']] =
     [\<lparr>r_codice = js ''A1'', r_denominazione = js ''Analisi 1'', r_cfu = 30\<rparr>]"
proof -
  have n: "Number_decimal (js ''30.5'') = Fin (61 / 2)" by code_simp
  note t = planRows_of_spec [of Number_decimal]
  have c: "r_cfu (normalizeRow Number_decimal [js ''CFU'' \<mapsto> js ''30,5'']) = 30"
    using t [THEN conjunct2, THEN conjunct2, THEN conjunct2, THEN conjunct2, THEN conjunct2, THEN conjunct2] n
    by (rule mp)
  have p: "planRows_of Number_decimal
     [[js ''Codice'' \<mapsto> js ''A1'', js ''Denominazione'' \<mapsto> js ''Analisi 1'', js ''CFU'' \<mapsto> js ''30,5''],
      [js ''Codice'' \<mapsto> js ''F1'', js ''Denominazione'' \<mapsto> js ''  '', js ''CFU'' \<mapsto> js ''6''],
      [js ''Codice'' \<mapsto> js ''C1'', js ''Denominazione'' \<mapsto> js ''Chimica'', js ''CFU'' \<mapsto> js ''0.9'']] =
     [\<lparr>r_codice = js ''A1'', r_denominazione = js ''Analisi 1'', r_cfu = 30\<rparr>]"
    by (rule trans [OF t [THEN conjunct1]]) code_simp
  from n c p show ?thesis by blast
qed

text \<open>
  C8 as stated fails: a row whose codice is a single double quote is non-blank after
  trimming and has a positive CFU, yet it is dropped, because the quote is removed before
  the test. The CSV line \<open>""";Analisi;6\<close> produces such a row.
\<close>

theorem kept_iff_nonblank_counterexample:
  "trim (field [js ''Codice'' \<mapsto> [0x22], js ''Denominazione'' \<mapsto> js ''Analisi'', js ''CFU'' \<mapsto> js ''6'']
          (js ''Codice'')) \<noteq> [] \<and>
   trim (field [js ''Codice'' \<mapsto> [0x22], js ''Denominazione'' \<mapsto> js ''Analisi'', js ''CFU'' \<mapsto> js ''6'']
          (js ''Denominazione'')) \<noteq> [] \<and>
   0 < r_cfu (normalizeRow Number_decimal
          [js ''Codice'' \<mapsto> [0x22], js ''Denominazione'' \<mapsto> js ''Analisi'', js ''CFU'' \<mapsto> js ''6'']) \<and>
   planRows_of Number_decimal
     [[js ''Codice'' \<mapsto> [0x22], js ''Denominazione'' \<mapsto> js ''Analisi'', js ''CFU'' \<mapsto> js ''6'']] = [] \<and>
   map (\<lambda>r. field r (js ''Codice''))
     (fst (snd (parseCsvAuto (js ''Codice;Denominazione;CFU'' @ [0x0A] @ [0x22, 0x22, 0x22] @
                              js '';Analisi;6'')))) = [[0x22]] \<and>
   planRows_of Number_decimal
     (fst (snd (parseCsvAuto (js ''Codice;Denominazione;CFU'' @ [0x0A] @ [0x22, 0x22, 0x22] @
                              js '';Analisi;6'')))) = []"
  by code_simp

section \<open>The import as a whole\<close>

lemma save_plan_exams: "exams (snd (save_plan env code planRows s2)) = exams s2"
  by (simp add: save_plan_def Let_def split: sum.splits prod.splits)

lemma save_plan_sent:
  "\<exists>new. sent (snd (save_plan env code planRows s2)) = sent s2 @ new \<and>
         (\<forall>q \<in> set new. request_code q = code)"
proof (cases "apiGetPlan env code")
  case (Inl e)
  then have "sent (snd (save_plan env code planRows s2)) = sent s2 @ [GetPlan code]"
    by (simp add: save_plan_def Let_def)
  then show ?thesis by force
next
  case (Inr r)
  obtain st body where r: "r = (st, body)" by (cases r)
  have "sent (snd (save_plan env code planRows s2)) = sent s2 @ [GetPlan code] \<or>
        sent (snd (save_plan env code planRows s2)) = sent s2 @ [GetPlan code, SavePlan code planRows]"
    using Inr r by (simp add: save_plan_def Let_def split: sum.splits prod.splits)
  then show ?thesis by force
qed

text \<open>
  C4. An import that fails in the file-name check, in reading the file, in header
  validation or in row normalisation (no useful row) ends with an error and leaves the exam
  list as it was; decoding, delimiter sniffing and tokenisation have no failure of their
  own. The exam list is replaced, by the exams built from the normalised rows, only when
  all of these have succeeded.
\<close>

theorem onPickPlanFile_atomic:
  "(parseCourseFromFilename (f_name file) = None \<longrightarrow>
      onPickPlanFile Number decode makeId env file s =
        (Inl (Error (js ''Nome file non valido. Deve essere tipo '' @ [0x22] @
                     js ''70-89.csv'' @ [0x22] @ js ''.'')), s)) \<and>
   (parseCourseFromFilename (f_name file) \<noteq> None \<longrightarrow>
      (f_arrayBuffer file = Inl e \<longrightarrow>
         fst (onPickPlanFile Number decode makeId env file s) = Inl e \<and>
         exams (snd (onPickPlanFile Number decode makeId env file s)) = exams s) \<and>
      (f_arrayBuffer file = Inr bytes \<and>
       parseCsvAuto (readFileTextUtf8OrUtf16 decode bytes) = (headers, rows, sep) \<longrightarrow>
         (requireExactHeaders headers EXPECTED_HEADERS = Inl e \<longrightarrow>
            fst (onPickPlanFile Number decode makeId env file s) = Inl e \<and>
            exams (snd (onPickPlanFile Number decode makeId env file s)) = exams s) \<and>
         (requireExactHeaders headers EXPECTED_HEADERS = Inr () \<longrightarrow>
            (planRows_of Number rows = [] \<longrightarrow>
               fst (onPickPlanFile Number decode makeId env file s) =
                 Inl (Error (js ''CSV valido ma nessuna riga utile (Codice/Denominazione/CFU vuoti?).'')) \<and>
               exams (snd (onPickPlanFile Number decode makeId env file s)) = exams s) \<and>
            (planRows_of Number rows \<noteq> [] \<longrightarrow>
               exams (snd (onPickPlanFile Number decode makeId env file s)) =
                 map (\<lambda>(i, p). \<lparr>e_id = makeId (made s + i), e_name = r_denominazione p,
                                  e_cfu = r_cfu p, e_grade = []\<rparr>)
                   (zip [0..<length (planRows_of Number rows)] (planRows_of Number rows))))))"
  by (auto simp: onPickPlanFile_def Let_def save_plan_exams split: option.splits sum.splits prod.splits)

theorem onPickPlanFile_atomic_witness:
  "fst (onPickPlanFile Number_decimal decode_ascii (\<lambda>n. js ''id'' @ String_of_int (int n))
          \<lparr>apiGetPlan = (\<lambda>c. Inr (404, None)), confirm = (\<lambda>m. True),
           apiSavePlan = (\<lambda>c rs. Inr (200, True, js ''{}''))\<rparr>
          \<lparr>f_name = js ''07-89.csv'',
           f_arrayBuffer = Inr (ascii_bytes ''Codice;Denominazione;Cfu'' @ [0x0A] @ ascii_bytes ''A1;Analisi 1;6'')\<rparr>
          \<lparr>exams = [\<lparr>e_id = js ''x'', e_name = js ''Fisica'', e_cfu = 6, e_grade = js ''28''\<rparr>],
           status = [], courseXX = [], courseYY = [], lookupOpen = False, lookupLoading = False,
           lookupMessage = [], foundPlan = None, selectedIdx = {}, made = 0, sent = []\<rparr>) =
     Inl (Error (js ''Header CSV non valido.'' @ [0x0A] @
                 js ''Atteso: Codice;Denominazione;CFU'' @ [0x0A] @
                 js ''Trovato: Codice;Denominazione;Cfu'')) \<and>
   exams (snd (onPickPlanFile Number_decimal decode_ascii (\<lambda>n. js ''id'' @ String_of_int (int n))
          \<lparr>apiGetPlan = (\<lambda>c. Inr (404, None)), confirm = (\<lambda>m. True),
           apiSavePlan = (\<lambda>c rs. Inr (200, True, js ''{}''))\<rparr>
          \<lparr>f_name = js ''07-89.csv'',
           f_arrayBuffer = Inr (ascii_bytes ''Codice;Denominazione;Cfu'' @ [0x0A] @ ascii_bytes ''A1;Analisi 1;6'')\<rparr>
          \<lparr>exams = [\<lparr>e_id = js ''x'', e_name = js ''Fisica'', e_cfu = 6, e_grade = js ''28''\<rparr>],
           status = [], courseXX = [], courseYY = [], lookupOpen = False, lookupLoading = False,
           lookupMessage = [], foundPlan = None, selectedIdx = {}, made = 0, sent = []\<rparr>)) =
     [\<lparr>e_id = js ''x'', e_name = js ''Fisica'', e_cfu = 6, e_grade = js ''28''\<rparr>]"
proof -
  let ?env = "\<lparr>apiGetPlan = (\<lambda>c. Inr (404, None)), confirm = (\<lambda>m. True),
           apiSavePlan = (\<lambda>c rs. Inr (200, True, js ''{}''))\<rparr>"
  let ?bytes = "ascii_bytes ''Codice;Denominazione;Cfu'' @ [0x0A] @ ascii_bytes ''A1;Analisi 1;6''"
  let ?file = "\<lparr>f_name = js ''07-89.csv'', f_arrayBuffer = Inr ?bytes\<rparr>"
  let ?s = "\<lparr>exams = [\<lparr>e_id = js ''x'', e_name = js ''Fisica'', e_cfu = 6, e_grade = js ''28''\<rparr>],
           status = [], courseXX = [], courseYY = [], lookupOpen = False, lookupLoading = False,
           lookupMessage = [], foundPlan = None, selectedIdx = {}, made = 0, sent = []\<rparr>"
  let ?p = "parseCsvAuto (readFileTextUtf8OrUtf16 decode_ascii ?bytes)"
  let ?e = "Error (js ''Header CSV non valido.'' @ [0x0A] @
                 js ''Atteso: Codice;Denominazione;CFU'' @ [0x0A] @
                 js ''Trovato: Codice;Denominazione;Cfu'')"
  have h0: "parseCourseFromFilename (f_name ?file) \<noteq> None" by code_simp
  have h1: "f_arrayBuffer ?file = Inr ?bytes" by simp
  have h2: "?p = (fst ?p, fst (snd ?p), snd (snd ?p))" by simp
  have h3: "requireExactHeaders (fst ?p) EXPECTED_HEADERS = Inl ?e" by code_simp
  from onPickPlanFile_atomic [of ?file Number_decimal decode_ascii
      "\<lambda>n. js ''id'' @ String_of_int (int n)" ?env ?s ?e ?bytes "fst ?p" "fst (snd ?p)" "snd (snd ?p)"]
    h0 h1 h2 h3
  show ?thesis by (simp del: prod.collapse)
qed

lemma parseCourseFromFilename_Some:
  "parseCourseFromFilename name = Some (xx, yy) \<longleftrightarrow>
     (\<exists>a b c d e f g.
        trim name = [a, b, 0x2D, c, d, 0x2E, e, f, g] \<and>
        is_digit a \<and> is_digit b \<and> is_digit c \<and> is_digit d \<and>
        (e = 0x63 \<or> e = 0x43) \<and> (f = 0x73 \<or> f = 0x53) \<and> (g = 0x76 \<or> g = 0x56) \<and>
        xx = [a, b] \<and> yy = [c, d])"
  unfolding parseCourseFromFilename_def
  by (auto split: list.splits if_splits)

lemma onPickPlanFile_sent:
  assumes "parseCourseFromFilename (f_name file) = Some (xx, yy)"
  shows "\<exists>new. sent (snd (onPickPlanFile Number decode makeId env file s)) = sent s @ new \<and>
           (\<forall>q \<in> set new. request_code q = xx @ js ''-'' @ yy)"
proof -
  let ?code = "xx @ js ''-'' @ yy"
  have triv: "\<exists>new. sent s = sent s @ new \<and> (\<forall>q \<in> set new. request_code q = ?code)"
    by simp
  have sv: "\<exists>new. sent (snd (save_plan env ?code rs s2)) = sent s @ new \<and>
              (\<forall>q \<in> set new. request_code q = ?code)" if "sent s2 = sent s" for rs s2
    using save_plan_sent [of env ?code rs s2] that by simp
  show ?thesis
    using assms triv
    by (auto simp: onPickPlanFile_def Let_def split: sum.splits prod.splits intro!: sv)
qed

lemma save_plan_course:
  "courseXX (snd (save_plan env code planRows s2)) = courseXX s2 \<and>
   courseYY (snd (save_plan env code planRows s2)) = courseYY s2"
  by (simp add: save_plan_def Let_def split: sum.splits prod.splits)

lemma onPickPlanFile_course:
  assumes "parseCourseFromFilename (f_name file) = Some (xx, yy)"
  shows "courseXX (snd (onPickPlanFile Number decode makeId env file s)) = xx \<and>
         courseYY (snd (onPickPlanFile Number decode makeId env file s)) = yy"
  using assms
  by (auto simp: onPickPlanFile_def Let_def save_plan_course split: sum.splits prod.splits)

text \<open>
  C9. The file name is accepted exactly when, trimmed, it consists of two digits, a hyphen,
  two digits, a dot and the letters c, s, v in either case; the two digit groups are the
  result. A rejected name ends the import with an error and an unchanged state. For an
  accepted name the course fields are set to the two groups, and every request of the import
  carries the code made of them, whatever the file contains.
\<close>

theorem parseCourseFromFilename_contract:
  "(parseCourseFromFilename (f_name file) = Some (xx, yy) \<longleftrightarrow>
     (\<exists>a b c d e f g.
        trim (f_name file) = [a, b, 0x2D, c, d, 0x2E, e, f, g] \<and>
        is_digit a \<and> is_digit b \<and> is_digit c \<and> is_digit d \<and>
        (e = 0x63 \<or> e = 0x43) \<and> (f = 0x73 \<or> f = 0x53) \<and> (g = 0x76 \<or> g = 0x56) \<and>
        xx = [a, b] \<and> yy = [c, d])) \<and>
   (parseCourseFromFilename (f_name file) = None \<longrightarrow>
      onPickPlanFile Number decode makeId env file s =
        (Inl (Error (js ''Nome file non valido. Deve essere tipo '' @ [0x22] @
                     js ''70-89.csv'' @ [0x22] @ js ''.'')), s)) \<and>
   (parseCourseFromFilename (f_name file) = Some (xx, yy) \<longrightarrow>
      courseXX (snd (onPickPlanFile Number decode makeId env file s)) = xx \<and>
      courseYY (snd (onPickPlanFile Number decode makeId env file s)) = yy \<and>
      (\<exists>new. sent (snd (onPickPlanFile Number decode makeId env file s)) = sent s @ new \<and>
             (\<forall>q \<in> set new. request_code q = xx @ js ''-'' @ yy)))"
proof -
  have a: "parseCourseFromFilename (f_name file) = None \<longrightarrow>
      onPickPlanFile Number decode makeId env file s =
        (Inl (Error (js ''Nome file non valido. Deve essere tipo '' @ [0x22] @
                     js ''70-89.csv'' @ [0x22] @ js ''.'')), s)"
    by (simp add: onPickPlanFile_def)
  from parseCourseFromFilename_Some [of "f_name file" xx yy] a
    onPickPlanFile_course [of "file" xx yy Number decode makeId env s]
    onPickPlanFile_sent [of "file" xx yy Number decode makeId env s]
  show ?thesis by blast
qed

theorem parseCourseFromFilename_contract_witness:
  "parseCourseFromFilename (js ''7-89.csv'') = None \<and>
   parseCourseFromFilename (js ''07-89.csv'') = Some (js ''07'', js ''89'') \<and>
   onPickPlanFile Number_decimal decode_ascii (\<lambda>n. js ''id'' @ String_of_int (int n))
     \<lparr>apiGetPlan = (\<lambda>c. Inr (404, None)), confirm = (\<lambda>m. True),
      apiSavePlan = (\<lambda>c rs. Inr (200, True, js ''{}''))\<rparr>
     \<lparr>f_name = js ''7-89.csv'',
      f_arrayBuffer = Inr (ascii_bytes ''Codice;Denominazione;CFU'' @ [0x0A] @ ascii_bytes ''A1;Analisi 1;6'')\<rparr>
     \<lparr>exams = [], status = [], courseXX = [], courseYY = [], lookupOpen = False,
      lookupLoading = False, lookupMessage = [], foundPlan = None, selectedIdx = {}, made = 0,
      sent = []\<rparr> =
     (Inl (Error (js ''Nome file non valido. Deve essere tipo '' @ [0x22] @
                  js ''70-89.csv'' @ [0x22] @ js ''.'')),
      \<lparr>exams = [], status = [], courseXX = [], courseYY = [], lookupOpen = False,
       lookupLoading = False, lookupMessage = [], foundPlan = None, selectedIdx = {}, made = 0,
       sent = []\<rparr>) \<and>
   parseCourseFromFilename (js '' 07-89.CSV'') = Some (js ''07'', js ''89'') \<and>
   courseXX (snd (onPickPlanFile Number_decimal decode_ascii (\<lambda>n. js ''id'' @ String_of_int (int n))
     \<lparr>apiGetPlan = (\<lambda>c. Inr (404, None)), confirm = (\<lambda>m. True),
      apiSavePlan = (\<lambda>c rs. Inr (200, True, js ''{}''))\<rparr>
     \<lparr>f_name = js '' 07-89.CSV'',
      f_arrayBuffer = Inr (ascii_bytes ''Codice;Denominazione;CFU'' @ [0x0A] @ ascii_bytes ''11-22;Analisi 1;6'')\<rparr>
     \<lparr>exams = [], status = [], courseXX = [], courseYY = [], lookupOpen = False,
      lookupLoading = False, lookupMessage = [], foundPlan = None, selectedIdx = {}, made = 0,
      sent = []\<rparr>)) = js ''07'' \<and>
   list_all (\<lambda>q. request_code q = js ''07-89'')
     (sent (snd (onPickPlanFile Number_decimal decode_ascii (\<lambda>n. js ''id'' @ String_of_int (int n))
     \<lparr>apiGetPlan = (\<lambda>c. Inr (404, None)), confirm = (\<lambda>m. True),
      apiSavePlan = (\<lambda>c rs. Inr (200, True, js ''{}''))\<rparr>
     \<lparr>f_name = js '' 07-89.CSV'',
      f_arrayBuffer = Inr (ascii_bytes ''Codice;Denominazione;CFU'' @ [0x0A] @ ascii_bytes ''11-22;Analisi 1;6'')\<rparr>
     \<lparr>exams = [], status = [], courseXX = [], courseYY = [], lookupOpen = False,
      lookupLoading = False, lookupMessage = [], foundPlan = None, selectedIdx = {}, made = 0,
      sent = []\<rparr>)))"
proof -
  let ?env = "\<lparr>apiGetPlan = (\<lambda>c. Inr (404, None)), confirm = (\<lambda>m. True),
      apiSavePlan = (\<lambda>c rs. Inr (200, True, js ''{}''))\<rparr>"
  let ?bad = "\<lparr>f_name = js ''7-89.csv'',
      f_arrayBuffer = Inr (ascii_bytes ''Codice;Denominazione;CFU'' @ [0x0A] @ ascii_bytes ''A1;Analisi 1;6'')\<rparr>"
  let ?good = "\<lparr>f_name = js '' 07-89.CSV'',
      f_arrayBuffer = Inr (ascii_bytes ''Codice;Denominazione;CFU'' @ [0x0A] @ ascii_bytes ''11-22;Analisi 1;6'')\<rparr>"
  let ?s = "\<lparr>exams = [], status = [], courseXX = [], courseYY = [], lookupOpen = False,
      lookupLoading = False, lookupMessage = [], foundPlan = None, selectedIdx = {}, made = 0,
      sent = []\<rparr>"
  have n: "parseCourseFromFilename (js ''7-89.csv'') = None" by code_simp
  have g0: "parseCourseFromFilename (js ''07-89.csv'') = Some (js ''07'', js ''89'')" by code_simp
  have g: "parseCourseFromFilename (js '' 07-89.CSV'') = Some (js ''07'', js ''89'')" by code_simp
  have c: "js ''07'' @ js ''-'' @ js ''89'' = js ''07-89''" by (simp add: js_def)
  from parseCourseFromFilename_contract [of ?bad "[]" "[]" Number_decimal decode_ascii
      "\<lambda>n. js ''id'' @ String_of_int (int n)" ?env ?s] n
  have 1: "onPickPlanFile Number_decimal decode_ascii (\<lambda>n. js ''id'' @ String_of_int (int n)) ?env ?bad ?s =
     (Inl (Error (js ''Nome file non valido. Deve essere tipo '' @ [0x22] @
                  js ''70-89.csv'' @ [0x22] @ js ''.'')), ?s)"
    by simp
  from parseCourseFromFilename_contract [of ?good "js ''07''" "js ''89''" Number_decimal decode_ascii
      "\<lambda>n. js ''id'' @ String_of_int (int n)" ?env ?s] g
  have 2: "courseXX (snd (onPickPlanFile Number_decimal decode_ascii (\<lambda>n. js ''id'' @ String_of_int (int n)) ?env ?good ?s)) = js ''07'' \<and>
      list_all (\<lambda>q. request_code q = js ''07-89'')
        (sent (snd (onPickPlanFile Number_decimal decode_ascii (\<lambda>n. js ''id'' @ String_of_int (int n)) ?env ?good ?s)))"
    by (auto simp: c list_all_iff)
  from n g0 1 g 2 show ?thesis by blast
qed

section \<open>Creating a plan on the server\<close>

lemma get_clean:
  "get_prop (clean_row r) (js ''codice'') = Some (JStr (trim (String_of (get_prop r (js ''codice'')))))"
  "get_prop (clean_row r) (js ''denominazione'') = Some (JStr (trim (String_of (get_prop r (js ''denominazione'')))))"
  "get_prop (clean_row r) (js ''cfu'') = Some (JNum (Number_of (get_prop r (js ''cfu''))))"
  by (simp_all add: clean_row_def js_def)

lemma keep_clean:
  "keep_row (clean_row r) \<longleftrightarrow>
     trim (String_of (get_prop r (js ''codice''))) \<noteq> [] \<and>
     trim (String_of (get_prop r (js ''denominazione''))) \<noteq> [] \<and>
     isInteger (Number_of (get_prop r (js ''cfu''))) \<and>
     in_1_30 (Number_of (get_prop r (js ''cfu'')))"
  by (simp add: keep_row_def get_clean)

lemma valid_integer: "isValidRow r \<Longrightarrow> isInteger (Number_of (get_prop r (js ''cfu'')))"
  by (cases "get_prop r (js ''cfu'')"; cases "the (get_prop r (js ''cfu''))")
    (auto simp: isValidRow_def split: json.splits option.splits)

lemma cleaned_filter:
  assumes "list_all isValidRow rows"
  shows "cleaned rows =
     take 200 (map clean_row
       (filter (\<lambda>r. trim (String_of (get_prop r (js ''codice''))) \<noteq> [] \<and>
                    trim (String_of (get_prop r (js ''denominazione''))) \<noteq> [] \<and>
                    in_1_30 (Number_of (get_prop r (js ''cfu'')))) rows))"
proof -
  have "filter (\<lambda>r. keep_row (clean_row r)) rows =
        filter (\<lambda>r. trim (String_of (get_prop r (js ''codice''))) \<noteq> [] \<and>
                    trim (String_of (get_prop r (js ''denominazione''))) \<noteq> [] \<and>
                    in_1_30 (Number_of (get_prop r (js ''cfu'')))) rows"
    using assms by (intro filter_cong) (auto simp: keep_clean list_all_iff valid_integer)
  then show ?thesis
    by (simp add: cleaned_def filter_map comp_def)
qed

lemma integer_in_range:
  "isInteger n \<Longrightarrow> in_1_30 n \<Longrightarrow> \<exists>k. n = Fin (of_int k) \<and> 1 \<le> k \<and> k \<le> 30"
proof (cases n)
  case (Fin q)
  assume "isInteger n" "in_1_30 n"
  with Fin have q: "of_int \<lfloor>q\<rfloor> = q" and r: "1 \<le> q" "q \<le> 30" by simp_all
  from r have "1 \<le> (of_int \<lfloor>q\<rfloor> :: rat)" "(of_int \<lfloor>q\<rfloor> :: rat) \<le> 30"
    by (simp_all only: q)
  then have "1 \<le> \<lfloor>q\<rfloor>" "\<lfloor>q\<rfloor> \<le> 30" by simp_all
  with q Fin show ?thesis by (metis (no_types))
qed simp_all

lemma cleaned_rows_shape:
  assumes "c \<in> set (cleaned rows)"
  shows "\<exists>s d k. c = JObj [(js ''codice'', JStr s), (js ''denominazione'', JStr d),
                          (js ''cfu'', JNum (Fin (of_int k)))] \<and>
                 s \<noteq> [] \<and> d \<noteq> [] \<and> 1 \<le> k \<and> k \<le> 30"
proof -
  from assms have "c \<in> set (filter keep_row (map clean_row rows))"
    unfolding cleaned_def by (rule in_set_takeD)
  then obtain r where c: "c = clean_row r" and k: "keep_row (clean_row r)" by auto
  from k obtain j where j: "Number_of (get_prop r (js ''cfu'')) = Fin (of_int j)" "1 \<le> j" "j \<le> 30"
    using integer_in_range unfolding keep_clean by blast
  from k have "trim (String_of (get_prop r (js ''codice''))) \<noteq> []"
    "trim (String_of (get_prop r (js ''denominazione''))) \<noteq> []"
    unfolding keep_clean by simp_all
  with c j show ?thesis unfolding clean_row_def by blast
qed

lemma post_plans_valid:
  assumes "get_prop b (js ''code'') = Some (JStr code)" "code \<noteq> []" "CODE_RE_test (trim code)"
    and "get_prop b (js ''rows'') = Some (JArr rows)" "rows \<noteq> []" "list_all isValidRow rows"
  shows "post_plans lc db (Some b) st =
     (if cleaned rows = [] then (Response 400 (error_body ''No valid rows after cleaning''), st, [])
      else
        (case db_select db st (trim code) of
           Inl m \<Rightarrow> (Response 500 (JObj [(js ''error'', JStr m)]), st, [Select (trim code)])
         | Inr (Some existing) \<Rightarrow> (conflict (trim code), st, [Select (trim code)])
         | Inr None \<Rightarrow>
             let payload = JObj [(js ''code'', JStr (trim code)),
                                 (js ''rows'', JArr (cleaned rows)),
                                 (js ''updated_at'', JStr (now db))]
             in case db_insert db (interfere db st) (trim code) payload of
                  (Inl m, st2) \<Rightarrow>
                    if includes_str (lc m) (js ''duplicate'')
                    then (conflict (trim code), st2, [Select (trim code), Insert payload])
                    else (Response 500 (JObj [(js ''error'', JStr m)]), st2,
                          [Select (trim code), Insert payload])
                | (Inr data, st2) \<Rightarrow>
                    (Response 200 (JObj [(js ''ok'', JBool True), (js ''data'', data)]),
                     st2, [Select (trim code), Insert payload])))"
proof -
  from assms(1) have "b \<noteq> JNull" by auto
  then have b: "(case Some b of None \<Rightarrow> JObj [] | Some JNull \<Rightarrow> JObj [] | Some v \<Rightarrow> v) = b"
    by (cases b) simp_all
  show ?thesis
    unfolding post_plans_def b Let_def using assms by simp
qed

text \<open>
  C1 (as amended). For a request whose code and rows pass validation, cleaning trims codice
  and denominazione, keeps the credit weight as the number it is, drops every row whose
  trimmed codice or denominazione is empty or whose credit weight lies outside the range
  from 1 to 30, and keeps the first 200 of the remaining rows; so every cleaned row has
  non-empty strings and an integer credit weight from 1 to 30. If no row is left the answer
  is 400, the table is untouched and the store is not called at all; otherwise the only
  calls are the select by code and the insert of the cleaned document.
\<close>

theorem post_plans_cleaning:
  assumes "get_prop b (js ''code'') = Some (JStr code)" "code \<noteq> []" "CODE_RE_test (trim code)"
    and "get_prop b (js ''rows'') = Some (JArr rows)" "rows \<noteq> []" "list_all isValidRow rows"
  shows "cleaned rows =
           take 200 (map clean_row
             (filter (\<lambda>r. trim (String_of (get_prop r (js ''codice''))) \<noteq> [] \<and>
                          trim (String_of (get_prop r (js ''denominazione''))) \<noteq> [] \<and>
                          in_1_30 (Number_of (get_prop r (js ''cfu'')))) rows)) \<and>
         (\<forall>c \<in> set (cleaned rows).
            \<exists>s d k. c = JObj [(js ''codice'', JStr s), (js ''denominazione'', JStr d),
                              (js ''cfu'', JNum (Fin (of_int k)))] \<and>
                    s \<noteq> [] \<and> d \<noteq> [] \<and> 1 \<le> k \<and> k \<le> 30) \<and>
         length (cleaned rows) \<le> 200 \<and>
         (cleaned rows = [] \<longrightarrow>
            post_plans lc db (Some b) st =
              (Response 400 (error_body ''No valid rows after cleaning''), st, [])) \<and>
         (cleaned rows \<noteq> [] \<longrightarrow>
            (\<forall>p \<in> set (snd (snd (post_plans lc db (Some b) st))).
               p = Select (trim code) \<or>
               p = Insert (JObj [(js ''code'', JStr (trim code)), (js ''rows'', JArr (cleaned rows)),
                                 (js ''updated_at'', JStr (now db))])))"
proof -
  have l: "length (cleaned rows) \<le> 200" by (simp add: cleaned_def)
  have e: "cleaned rows = [] \<longrightarrow>
            post_plans lc db (Some b) st =
              (Response 400 (error_body ''No valid rows after cleaning''), st, [])"
    by (simp add: post_plans_valid [OF assms])
  have i: "cleaned rows \<noteq> [] \<longrightarrow>
            (\<forall>p \<in> set (snd (snd (post_plans lc db (Some b) st))).
               p = Select (trim code) \<or>
               p = Insert (JObj [(js ''code'', JStr (trim code)), (js ''rows'', JArr (cleaned rows)),
                                 (js ''updated_at'', JStr (now db))]))"
    by (auto simp: post_plans_valid [OF assms] Let_def split: sum.splits option.splits prod.splits if_splits)
  from cleaned_filter [OF assms(6)] cleaned_rows_shape [of _ rows] l e i
  show ?thesis by blast
qed


theorem post_plans_cleaning_witness:
  "cleaned
     [JObj [(js ''codice'', JStr (js '' A1 '')), (js ''denominazione'', JStr (js ''Analisi'')),
            (js ''cfu'', JNum (Fin 6))],
      JObj [(js ''codice'', JStr (js ''F1'')), (js ''denominazione'', JStr (js ''Fisica'')),
            (js ''cfu'', JNum (Fin 0))]] =
     [JObj [(js ''codice'', JStr (js ''A1'')), (js ''denominazione'', JStr (js ''Analisi'')),
            (js ''cfu'', JNum (Fin 6))]] \<and>
   post_plans toLowerCase_ascii
     \<lparr>select_error = None, insert_error = None, duplicate_message = js ''duplicate key'',
      interfere = (\<lambda>t. t), now = js ''2026-01-01T00:00:00.000Z''\<rparr>
     (Some (JObj [(js ''code'', JStr (js ''07-89'')),
                  (js ''rows'', JArr
                     [JObj [(js ''codice'', JStr (js ''  '')),
                            (js ''denominazione'', JStr (js ''Analisi'')),
                            (js ''cfu'', JNum (Fin 6))]])]))
     Map.empty =
     (Response 400 (error_body ''No valid rows after cleaning''), Map.empty, [])"
proof -
  let ?db = "\<lparr>select_error = None, insert_error = None, duplicate_message = js ''duplicate key'',
      interfere = (\<lambda>t. t), now = js ''2026-01-01T00:00:00.000Z''\<rparr>"
  let ?rows1 = "[JObj [(js ''codice'', JStr (js '' A1 '')), (js ''denominazione'', JStr (js ''Analisi'')),
            (js ''cfu'', JNum (Fin 6))],
      JObj [(js ''codice'', JStr (js ''F1'')), (js ''denominazione'', JStr (js ''Fisica'')),
            (js ''cfu'', JNum (Fin 0))]]"
  let ?rows2 = "[JObj [(js ''codice'', JStr (js ''  '')),
                            (js ''denominazione'', JStr (js ''Analisi'')),
                            (js ''cfu'', JNum (Fin 6))]]"
  let ?b1 = "JObj [(js ''code'', JStr (js ''07-89'')), (js ''rows'', JArr ?rows1)]"
  let ?b2 = "JObj [(js ''code'', JStr (js ''07-89'')), (js ''rows'', JArr ?rows2)]"
  have c1: "get_prop ?b1 (js ''code'') = Some (JStr (js ''07-89''))" by code_simp
  have c2: "get_prop ?b2 (js ''code'') = Some (JStr (js ''07-89''))" by code_simp
  have n: "js ''07-89'' \<noteq> []" by (simp add: js_def)
  have t: "CODE_RE_test (trim (js ''07-89''))" by code_simp
  have r1: "get_prop ?b1 (js ''rows'') = Some (JArr ?rows1)" by code_simp
  have r2: "get_prop ?b2 (js ''rows'') = Some (JArr ?rows2)" by code_simp
  have ne1: "?rows1 \<noteq> []" by simp
  have ne2: "?rows2 \<noteq> []" by simp
  have v1: "list_all isValidRow ?rows1" by code_simp
  have v2: "list_all isValidRow ?rows2" by code_simp
  have e2: "cleaned ?rows2 = []" by code_simp
  note t1 = post_plans_cleaning [OF c1 n t r1 ne1 v1, THEN conjunct1]
  note t2 = post_plans_cleaning [OF c2 n t r2 ne2 v2, of toLowerCase_ascii ?db Map.empty,
      THEN conjunct2, THEN conjunct2, THEN conjunct2, THEN conjunct1, THEN mp, OF e2]
  have a: "cleaned ?rows1 =
     [JObj [(js ''codice'', JStr (js ''A1'')), (js ''denominazione'', JStr (js ''Analisi'')),
            (js ''cfu'', JNum (Fin 6))]]"
    by (rule trans [OF t1]) code_simp
  from a t2 show ?thesis by (rule conjI)
qed

text \<open>
  C1 as stated fails: a valid row with credit weight 31 would be clamped to 30 and kept;
  the handler drops it, and the request, left without rows, is answered 400.
\<close>

theorem cleaning_clamps_counterexample:
  "list_all isValidRow
     [JObj [(js ''codice'', JStr (js ''A1'')), (js ''denominazione'', JStr (js ''Analisi'')),
            (js ''cfu'', JNum (Fin 31))]] \<and>
   cleaned_as_stated
     [JObj [(js ''codice'', JStr (js ''A1'')), (js ''denominazione'', JStr (js ''Analisi'')),
            (js ''cfu'', JNum (Fin 31))]] =
     [JObj [(js ''codice'', JStr (js ''A1'')), (js ''denominazione'', JStr (js ''Analisi'')),
            (js ''cfu'', JNum (Fin 30))]] \<and>
   cleaned
     [JObj [(js ''codice'', JStr (js ''A1'')), (js ''denominazione'', JStr (js ''Analisi'')),
            (js ''cfu'', JNum (Fin 31))]] = [] \<and>
   fst (post_plans toLowerCase_ascii
          \<lparr>select_error = None, insert_error = None, duplicate_message = js ''duplicate key'',
           interfere = (\<lambda>t. t), now = js ''2026-01-01T00:00:00.000Z''\<rparr>
          (Some (JObj [(js ''code'', JStr (js ''07-89'')),
                       (js ''rows'', JArr
                          [JObj [(js ''codice'', JStr (js ''A1'')),
                                 (js ''denominazione'', JStr (js ''Analisi'')),
                                 (js ''cfu'', JNum (Fin 31))]])]))
          Map.empty) =
     Response 400 (error_body ''No valid rows after cleaning'')"
  by code_simp






end
